theory Spec2Isabelle
  imports Complex_Main
begin

section \<open>Data model\<close>

text \<open>
  The embedding follows \<^verbatim>\<open>loan-calculator.service.ts\<close> and the model interfaces
  \<^verbatim>\<open>LoanData\<close> and \<^verbatim>\<open>LoanCalculationResult\<close>.

  Conventions of the embedding:
  \<^item> A JavaScript \<^verbatim>\<open>number\<close> that holds money or a rate is a \<open>real\<close>: arithmetic is
    exact, there is no rounding, no \<^verbatim>\<open>NaN\<close> and no infinity. Month counts are \<open>int\<close>.
    Where the rounding of doubles decides a property (the payment against the principal
    over the full term), \<^verbatim>\<open>calculateMonthlyPayment\<close> is given a second time in double
    arithmetic, every operation rounded.
  \<^item> \<^verbatim>\<open>loanLengthYears\<close> is a \<open>nat\<close> (the loan length is a whole number of years), so
    that \<^verbatim>\<open>Math.pow(x, totalMonths)\<close> is the power \<open>x ^ totalMonths\<close>.
  \<^item> A \<^verbatim>\<open>Date\<close> is the calendar date it denotes, with the month counted from 0 as
    \<^verbatim>\<open>getMonth()\<close> does; local time is taken to be UTC, so that parsing a date string,
    reading its fields and printing it with \<^verbatim>\<open>toISOString()\<close> agree on the day.
    The date strings \<^verbatim>\<open>startDate\<close> and \<^verbatim>\<open>payoffDate\<close> are the dates they spell.
  \<^item> \<^verbatim>\<open>new Date()\<close>, the clock, is the explicit argument \<open>today\<close>.
  \<^item> \<^verbatim>\<open>x || 0\<close> on a number is \<open>x\<close> (it replaces only 0, \<^verbatim>\<open>NaN\<close>, \<^verbatim>\<open>null\<close> and
    \<^verbatim>\<open>undefined\<close> by 0), and \<^verbatim>\<open>b || false\<close> on a boolean is \<open>b\<close>.
\<close>

record jsdate =
  year :: int
  month :: int
  day :: int

record LoanData =
  loanAmount :: real
  loanLengthYears :: nat
  interestRate :: real
  startDate :: jsdate
  monthlyPayment :: real
  escrow :: real
  extraPayment :: real
  oneTimeExtraPayments :: real
  closingCosts :: real
  continueExtraPayments :: bool

record LoanCalculationResult =
  totalInterestPaid :: real
  totalAmountPaid :: real
  totalExtraPayment :: real
  monthsToPayout :: int
  yearsToPayout :: real
  payoffDate :: jsdate
  currentRemainingBalance :: real
  monthsElapsed :: int


section \<open>Dates\<close>

definition leap_year :: "int \<Rightarrow> bool" where
  "leap_year y \<longleftrightarrow> y mod 4 = 0 \<and> (y mod 100 \<noteq> 0 \<or> y mod 400 = 0)"

definition days_in_month :: "int \<Rightarrow> int \<Rightarrow> int" where
  "days_in_month y m =
     (if m = 1 then (if leap_year y then 29 else 28)
      else if m = 3 \<or> m = 5 \<or> m = 8 \<or> m = 10 then 30
      else 31)"

definition valid_date :: "jsdate \<Rightarrow> bool" where
  "valid_date d \<longleftrightarrow>
     0 \<le> month d \<and> month d < 12 \<and> 1 \<le> day d \<and> day d \<le> days_in_month (year d) (month d)"

text \<open>
  \<^verbatim>\<open>d.setMonth(m)\<close>: the year absorbs \<open>m div 12\<close>, and a day of the month that the
  target month does not have runs over into the month after it (31 January plus one month
  is 2 or 3 March).
\<close>

definition setMonth :: "jsdate \<Rightarrow> int \<Rightarrow> jsdate" where
  "setMonth d m =
     (let ym = year d + m div 12;
          mn = m mod 12;
          dim = days_in_month ym mn
      in if day d \<le> dim then \<lparr>year = ym, month = mn, day = day d\<rparr>
         else \<lparr>year = (if mn = 11 then ym + 1 else ym), month = (mn + 1) mod 12,
               day = day d - dim\<rparr>)"

section \<open>The amortization walk of \<^verbatim>\<open>calculateLoan\<close>\<close>

text \<open>
  The mutable locals of \<^verbatim>\<open>calculateLoan\<close>. Two of them share their name with a field
  of the result and carry the suffix \<open>V\<close> here.
\<close>

record sim =
  balance :: real
  totalInterest :: real
  totalExtraPaymentV :: real
  monthCount :: int
  currentRemainingBalanceV :: real
  futureInterest :: real
  futureExtraPayment :: real

datatype outcome = Break sim | Continue sim

definition monthlyRate :: "LoanData \<Rightarrow> real" where
  "monthlyRate loan = interestRate loan / 100 / 12"

definition totalMonths :: "LoanData \<Rightarrow> int" where
  "totalMonths loan = int (loanLengthYears loan) * 12"

definition principalAndInterest :: "LoanData \<Rightarrow> real" where
  "principalAndInterest loan = monthlyPayment loan - escrow loan"

definition monthsElapsedAt :: "jsdate \<Rightarrow> jsdate \<Rightarrow> int" where
  "monthsElapsedAt today start =
     max 0 ((year today - year start) * 12 + (month today - month start))"

definition interestPayment :: "LoanData \<Rightarrow> sim \<Rightarrow> real" where
  "interestPayment loan s = balance s * monthlyRate loan"

text \<open>
  The head of the loop body: \<^verbatim>\<open>monthCount++\<close>, then the one-time payment in the month
  that equals \<^verbatim>\<open>monthsElapsed\<close>.
\<close>

definition oneTimeDue :: "LoanData \<Rightarrow> int \<Rightarrow> sim \<Rightarrow> bool" where
  "oneTimeDue loan me s \<longleftrightarrow>
     monthCount s + 1 = me \<and> me > 0 \<and> oneTimeExtraPayments loan > 0"

definition afterOneTime :: "LoanData \<Rightarrow> int \<Rightarrow> sim \<Rightarrow> sim" where
  "afterOneTime loan me s =
     (let s1 = s\<lparr>monthCount := monthCount s + 1\<rparr>
      in if oneTimeDue loan me s
         then s1\<lparr>balance := max 0 (balance s1 - oneTimeExtraPayments loan)\<rparr>
         else s1)"

definition applyExtraPayment :: "LoanData \<Rightarrow> int \<Rightarrow> sim \<Rightarrow> bool" where
  "applyExtraPayment loan me s =
     (if me = 0 then True
      else if monthCount s \<le> me then True
      else continueExtraPayments loan)"

text \<open>One pass through the body of the \<^verbatim>\<open>while\<close> loop, up to \<^verbatim>\<open>break\<close> or its end.\<close>

definition month_step :: "LoanData \<Rightarrow> int \<Rightarrow> sim \<Rightarrow> outcome" where
  "month_step loan me s0 =
     (let s = afterOneTime loan me s0
      in if oneTimeDue loan me s0 \<and> balance s = 0 then Break s
         else
           let interest = interestPayment loan s;
               principalPayment = principalAndInterest loan - interest;
               extraThisMonth = (if applyExtraPayment loan me s then extraPayment loan else 0);
               totalPrincipal = principalPayment + extraThisMonth
           in if totalPrincipal \<ge> balance s then
                let finalInterest = balance s * monthlyRate loan;
                    finalExtra = (if balance s - principalPayment > 0
                                  then balance s - principalPayment else 0)
                in Break (s\<lparr>balance := 0,
                            totalInterest := totalInterest s + finalInterest,
                            totalExtraPaymentV := totalExtraPaymentV s + finalExtra,
                            futureInterest :=
                              (if monthCount s > me then futureInterest s + finalInterest
                               else futureInterest s),
                            futureExtraPayment :=
                              (if monthCount s > me then futureExtraPayment s + finalExtra
                               else futureExtraPayment s)\<rparr>)
              else
                Continue (s\<lparr>balance := balance s - totalPrincipal,
                            totalInterest := totalInterest s + interest,
                            totalExtraPaymentV := totalExtraPaymentV s + extraThisMonth,
                            futureInterest :=
                              (if monthCount s > me then futureInterest s + interest
                               else futureInterest s),
                            futureExtraPayment :=
                              (if monthCount s > me then futureExtraPayment s + extraThisMonth
                               else futureExtraPayment s),
                            currentRemainingBalanceV :=
                              (if monthCount s = me then balance s - totalPrincipal
                               else currentRemainingBalanceV s)\<rparr>))"

text \<open>
  The loop \<^verbatim>\<open>while (balance > 0 && monthCount < totalMonths * 2)\<close>. It ends because
  every pass that does not break adds one to \<^verbatim>\<open>monthCount\<close>.
\<close>

function amortize :: "LoanData \<Rightarrow> int \<Rightarrow> sim \<Rightarrow> sim" where
  "amortize loan me s =
     (if balance s > 0 \<and> monthCount s < totalMonths loan * 2
      then (case month_step loan me s of
              Break s' \<Rightarrow> s'
            | Continue s' \<Rightarrow> amortize loan me s')
      else s)"
  by pat_completeness auto
termination
  by (relation "measure (\<lambda>(loan, me, s). nat (totalMonths loan * 2 - monthCount s))")
     (auto simp: month_step_def afterOneTime_def Let_def split: if_splits)

declare amortize.simps [simp del]

definition initial :: "LoanData \<Rightarrow> int \<Rightarrow> sim" where
  "initial loan me =
     \<lparr>balance =
        (if me = 0 \<and> oneTimeExtraPayments loan > 0
         then max 0 (loanAmount loan - oneTimeExtraPayments loan)
         else loanAmount loan),
      totalInterest = 0,
      totalExtraPaymentV = 0,
      monthCount = 0,
      currentRemainingBalanceV = loanAmount loan,
      futureInterest = 0,
      futureExtraPayment = 0\<rparr>"

text \<open>The state of the locals when the loop has ended.\<close>

definition simulate :: "jsdate \<Rightarrow> LoanData \<Rightarrow> sim" where
  "simulate today loan =
     (let me = monthsElapsedAt today (startDate loan)
      in amortize loan me (initial loan me))"

definition calculateLoan :: "jsdate \<Rightarrow> LoanData \<Rightarrow> LoanCalculationResult" where
  "calculateLoan today loan =
     (let me = monthsElapsedAt today (startDate loan)
      in if me = 0 \<and> oneTimeExtraPayments loan > 0
            \<and> max 0 (loanAmount loan - oneTimeExtraPayments loan) = 0
         then \<lparr>totalInterestPaid = 0,
               totalAmountPaid = loanAmount loan,
               totalExtraPayment = oneTimeExtraPayments loan,
               monthsToPayout = 0,
               yearsToPayout = 0,
               payoffDate = startDate loan,
               currentRemainingBalance = 0,
               monthsElapsed = 0\<rparr>
         else
           let s = simulate today loan;
               crb = (if me \<le> 0 then loanAmount loan else currentRemainingBalanceV s);
               futInt = (if me \<le> 0 then totalInterest s else futureInterest s);
               futExtra = (if me \<le> 0 then totalExtraPaymentV s else futureExtraPayment s);
               remainingMonths = (if me > 0 then max 0 (monthCount s - me) else monthCount s)
           in \<lparr>totalInterestPaid = (if me > 0 then futInt else totalInterest s),
               totalAmountPaid =
                 (if me > 0 then crb + futInt else loanAmount loan + totalInterest s),
               totalExtraPayment = (if me > 0 then futExtra else totalExtraPaymentV s),
               monthsToPayout = remainingMonths,
               yearsToPayout = real_of_int remainingMonths / 12,
               payoffDate =
                 setMonth (startDate loan) (month (startDate loan) + monthCount s),
               currentRemainingBalance = crb,
               monthsElapsed = me\<rparr>)"

text \<open>
  The values that the variable \<^verbatim>\<open>balance\<close> takes while the loop runs, in order: in
  every pass its value after the head of the body (\<^verbatim>\<open>monthCount++\<close> and the one-time
  payment, where it is due), then its value when the pass ends.
\<close>

function balances :: "LoanData \<Rightarrow> int \<Rightarrow> sim \<Rightarrow> real list" where
  "balances loan me s =
     (if balance s > 0 \<and> monthCount s < totalMonths loan * 2
      then balance (afterOneTime loan me s) #
           (case month_step loan me s of
              Break s' \<Rightarrow> [balance s']
            | Continue s' \<Rightarrow> balance s' # balances loan me s')
      else [])"
  by pat_completeness auto
termination
  by (relation "measure (\<lambda>(loan, me, s). nat (totalMonths loan * 2 - monthCount s))")
     (auto simp: month_step_def afterOneTime_def Let_def split: if_splits)

declare balances.simps [simp del]

text \<open>
  All values of \<^verbatim>\<open>balance\<close> in a call of \<^verbatim>\<open>calculateLoan\<close>: the principal it starts
  from, its value when the loop is reached, and its values in the loop.
\<close>

definition balance_history :: "jsdate \<Rightarrow> LoanData \<Rightarrow> real list" where
  "balance_history today loan =
     (let me = monthsElapsedAt today (startDate loan)
      in loanAmount loan # balance (initial loan me) # balances loan me (initial loan me))"

section \<open>The older \<^verbatim>\<open>calculateLoan\<close>\<close>

text \<open>
  The earlier version of the service applies the recurring extra payment in every month,
  has no one-time payment inside the loop, subtracts the one-time payment from the
  remaining balance after the loop, and reports \<^verbatim>\<open>monthCount\<close> itself as
  \<^verbatim>\<open>monthsToPayout\<close>. Its \<^verbatim>\<open>LoanData\<close> has neither \<^verbatim>\<open>closingCosts\<close> nor
  \<^verbatim>\<open>continueExtraPayments\<close>; it reads the other fields of the same object.
\<close>

definition month_step_old :: "LoanData \<Rightarrow> int \<Rightarrow> sim \<Rightarrow> outcome" where
  "month_step_old loan me s0 =
     (let s = s0\<lparr>monthCount := monthCount s0 + 1\<rparr>;
          interest = balance s * monthlyRate loan;
          principalPayment = principalAndInterest loan - interest;
          extraThisMonth = extraPayment loan;
          totalPrincipal = principalPayment + extraThisMonth
      in if totalPrincipal \<ge> balance s then
           let finalInterest = balance s * monthlyRate loan;
               finalExtra = (if balance s - principalPayment > 0
                             then balance s - principalPayment else 0)
           in Break (s\<lparr>balance := 0,
                       totalInterest := totalInterest s + finalInterest,
                       totalExtraPaymentV := totalExtraPaymentV s + finalExtra,
                       futureInterest :=
                         (if monthCount s > me then futureInterest s + finalInterest
                          else futureInterest s),
                       futureExtraPayment :=
                         (if monthCount s > me then futureExtraPayment s + finalExtra
                          else futureExtraPayment s)\<rparr>)
         else
           Continue (s\<lparr>balance := balance s - totalPrincipal,
                       totalInterest := totalInterest s + interest,
                       totalExtraPaymentV := totalExtraPaymentV s + extraThisMonth,
                       futureInterest :=
                         (if monthCount s > me then futureInterest s + interest
                          else futureInterest s),
                       futureExtraPayment :=
                         (if monthCount s > me then futureExtraPayment s + extraThisMonth
                          else futureExtraPayment s),
                       currentRemainingBalanceV :=
                         (if monthCount s = me then balance s - totalPrincipal
                          else currentRemainingBalanceV s)\<rparr>))"

function amortize_old :: "LoanData \<Rightarrow> int \<Rightarrow> sim \<Rightarrow> sim" where
  "amortize_old loan me s =
     (if balance s > 0 \<and> monthCount s < totalMonths loan * 2
      then (case month_step_old loan me s of
              Break s' \<Rightarrow> s'
            | Continue s' \<Rightarrow> amortize_old loan me s')
      else s)"
  by pat_completeness auto
termination
  by (relation "measure (\<lambda>(loan, me, s). nat (totalMonths loan * 2 - monthCount s))")
     (auto simp: month_step_old_def Let_def split: if_splits)

declare amortize_old.simps [simp del]

definition initial_old :: "LoanData \<Rightarrow> sim" where
  "initial_old loan =
     \<lparr>balance = loanAmount loan,
      totalInterest = 0,
      totalExtraPaymentV = 0,
      monthCount = 0,
      currentRemainingBalanceV = loanAmount loan,
      futureInterest = 0,
      futureExtraPayment = 0\<rparr>"

definition calculateLoan_old :: "jsdate \<Rightarrow> LoanData \<Rightarrow> LoanCalculationResult" where
  "calculateLoan_old today loan =
     (let me = monthsElapsedAt today (startDate loan);
          s = amortize_old loan me (initial_old loan);
          crb0 = (if me \<le> 0 then loanAmount loan else currentRemainingBalanceV s);
          futInt = (if me \<le> 0 then totalInterest s else futureInterest s);
          futExtra = (if me \<le> 0 then totalExtraPaymentV s else futureExtraPayment s);
          crb = max 0 (crb0 - oneTimeExtraPayments loan)
      in \<lparr>totalInterestPaid = (if me > 0 then futInt else totalInterest s),
          totalAmountPaid =
            (if me > 0 then crb + futInt else loanAmount loan + totalInterest s),
          totalExtraPayment = (if me > 0 then futExtra else totalExtraPaymentV s),
          monthsToPayout = monthCount s,
          yearsToPayout = real_of_int (monthCount s) / 12,
          payoffDate = setMonth (startDate loan) (month (startDate loan) + monthCount s),
          currentRemainingBalance = crb,
          monthsElapsed = me\<rparr>)"

section \<open>Payment formula and rate solvers\<close>

text \<open>The level payment \<^verbatim>\<open>P * (r * (1 + r)^n) / ((1 + r)^n - 1)\<close> for \<open>n\<close> months.\<close>

definition levelPayment :: "real \<Rightarrow> real \<Rightarrow> nat \<Rightarrow> real" where
  "levelPayment amount r n = amount * (r * (1 + r) ^ n) / ((1 + r) ^ n - 1)"

definition calculateMonthlyPayment :: "real \<Rightarrow> nat \<Rightarrow> real \<Rightarrow> real" where
  "calculateMonthlyPayment amount years rate =
     (let r = rate / 100 / 12;
          n = years * 12
      in if r = 0 then amount / real n else levelPayment amount r n)"

text \<open>
  The same function with every division checked: \<open>None\<close> stands for a division whose
  divisor is zero (in JavaScript an infinity or \<^verbatim>\<open>NaN\<close>, not an exception).
\<close>

definition checked_div :: "real \<Rightarrow> real \<Rightarrow> real option" where
  "checked_div x y = (if y = 0 then None else Some (x / y))"

definition calculateMonthlyPayment_checked :: "real \<Rightarrow> nat \<Rightarrow> real \<Rightarrow> real option" where
  "calculateMonthlyPayment_checked amount years rate =
     (case checked_div rate 100 of
        None \<Rightarrow> None
      | Some r100 \<Rightarrow>
          (case checked_div r100 12 of
             None \<Rightarrow> None
           | Some r \<Rightarrow>
               (let n = years * 12
                in if r = 0 then checked_div amount (real n)
                   else checked_div (amount * (r * (1 + r) ^ n)) ((1 + r) ^ n - 1))))"




text \<open>
  \<^verbatim>\<open>calculateSuggestedRate\<close>: bisection on the monthly payment; \<^verbatim>\<open>mid\<close> is a
  variable of the loop, set before it and at the end of every pass.
\<close>

function suggestedRate_search ::
  "real \<Rightarrow> nat \<Rightarrow> real \<Rightarrow> real \<Rightarrow> real \<Rightarrow> real \<Rightarrow> nat \<Rightarrow> real" where
  "suggestedRate_search amount n target low high mid iterations =
     (if iterations < 100 \<and> high - low > 1 / 10000 then
        (if \<bar>(if mid / 100 / 12 = 0 then amount / real n
              else levelPayment amount (mid / 100 / 12) n) - target\<bar> < 1 / 100
         then mid
         else if (if mid / 100 / 12 = 0 then amount / real n
                  else levelPayment amount (mid / 100 / 12) n) < target
         then suggestedRate_search amount n target mid high ((mid + high) / 2) (iterations + 1)
         else suggestedRate_search amount n target low mid ((low + mid) / 2) (iterations + 1))
      else mid)"
  by pat_completeness auto
termination
  by (relation "measure (\<lambda>(amount, n, target, low, high, mid, iterations). 100 - iterations)")
     auto

declare suggestedRate_search.simps [simp del]

definition calculateSuggestedRate :: "real \<Rightarrow> nat \<Rightarrow> real \<Rightarrow> real" where
  "calculateSuggestedRate amount years targetMonthlyPayment =
     (let n = years * 12
      in if targetMonthlyPayment \<le> amount / real n then 0
         else suggestedRate_search amount n targetMonthlyPayment 0 20 ((0 + 20) / 2) 0)"

section \<open>Double arithmetic\<close>

text \<open>
  A JavaScript \<^verbatim>\<open>number\<close> is an IEEE 754 binary64 value: every arithmetic operation
  returns the exact result rounded to the nearest value with a significand of 53 bits,
  a tie going to the even significand. \<open>fl\<close> is that rounding. Below \<open>2^-1022\<close> the
  spacing stays at \<open>2^-1074\<close> (the subnormal numbers). Overflow is outside the model: a
  result of \<open>2^1024\<close> or more is an infinity in the program.
\<close>

definition pow2 :: "int \<Rightarrow> real" where
  "pow2 e = (if 0 \<le> e then 2 ^ nat e else 1 / 2 ^ nat (- e))"

text \<open>The number of binary digits of a natural number.\<close>

fun bits :: "nat \<Rightarrow> nat" where
  "bits n = (if n = 0 then 0 else Suc (bits (n div 2)))"

declare bits.simps [simp del]

text \<open>The exponent \<open>e\<close> with \<open>2^e \<le> |x| < 2^(e+1)\<close>.\<close>

definition binade :: "real \<Rightarrow> int" where
  "binade x =
     (if x = 0 then 0
      else if 1 \<le> \<bar>x\<bar> then int (bits (nat \<lfloor>\<bar>x\<bar>\<rfloor>)) - 1
      else - int (bits (nat (\<lceil>1 / \<bar>x\<bar>\<rceil> - 1))))"

definition round_even :: "real \<Rightarrow> int" where
  "round_even y =
     (let f = \<lfloor>y\<rfloor>;
          d = y - real_of_int f
      in if d < 1 / 2 then f
         else if 1 / 2 < d then f + 1
         else if even f then f else f + 1)"

definition fl :: "real \<Rightarrow> real" where
  "fl x =
     (let u = pow2 (max (- 1022) (binade x) - 52)
      in real_of_int (round_even (x / u)) * u)"

text \<open>
  \<^verbatim>\<open>calculateMonthlyPayment\<close> in double arithmetic. \<^verbatim>\<open>Math.pow\<close> belongs to the
  JavaScript runtime, which is free in how closely it approximates the power: it is the
  argument \<open>pow\<close>. \<open>None\<close> stands for a division by zero (an infinity or \<^verbatim>\<open>NaN\<close> in the
  program). The number of months is a product of whole numbers and exact below \<open>2^53\<close>.
\<close>

definition calculateMonthlyPayment_double ::
  "(real \<Rightarrow> real \<Rightarrow> real) \<Rightarrow> real \<Rightarrow> nat \<Rightarrow> real \<Rightarrow> real option" where
  "calculateMonthlyPayment_double pow amount years rate =
     (let r = fl (fl (rate / 100) / 12);
          n = real (years * 12)
      in if r = 0 then (if n = 0 then None else Some (fl (amount / n)))
         else
           let p = pow (fl (1 + r)) n;
               d = fl (p - 1)
           in if d = 0 then None else Some (fl (fl (amount * fl (r * p)) / d)))"

text \<open>A \<^verbatim>\<open>Math.pow\<close> that returns the exact power of a whole exponent, rounded.\<close>

definition pow_rounded :: "real \<Rightarrow> real \<Rightarrow> real" where
  "pow_rounded x n = fl (x ^ nat \<lfloor>n\<rfloor>)"

section \<open>\<^verbatim>\<open>compareLoan\<close>\<close>


section \<open>Notions used in the proofs about the walk\<close>

text \<open>The state a pass of the loop body ends in, and whether the loop goes on after it.\<close>

fun outcome_state :: "outcome \<Rightarrow> sim" where
  "outcome_state (Break s) = s"
| "outcome_state (Continue s) = s"

fun continues :: "outcome \<Rightarrow> bool" where
  "continues (Break s) = False"
| "continues (Continue s) = True"

text \<open>
  Two runs in the same month, the first with the lower balance and with no more interest
  accrued than the second.
\<close>

definition behind :: "sim \<Rightarrow> sim \<Rightarrow> bool" where
  "behind s2 s1 \<longleftrightarrow>
     monthCount s2 = monthCount s1 \<and> balance s2 \<le> balance s1 \<and> 0 \<le> balance s2 \<and>
     totalInterest s2 \<le> totalInterest s1 \<and> futureInterest s2 \<le> futureInterest s1"

section \<open>Notions used in the proofs about the payment formula\<close>

text \<open>
  The value today of 1 paid at the end of each of \<open>n\<close> months, at the monthly rate \<open>r\<close>;
  the level payment is the principal divided by it.
\<close>

definition annuity :: "nat \<Rightarrow> real \<Rightarrow> real" where
  "annuity n r = (\<Sum>j<n. (1 / (1 + r)) ^ Suc j)"

text \<open>
  The payment for \<open>n\<close> months at an annual rate in percent, as \<^verbatim>\<open>calculateMonthlyPayment\<close>
  and the loop of \<^verbatim>\<open>calculateSuggestedRate\<close> both compute it.
\<close>

definition payAt :: "real \<Rightarrow> nat \<Rightarrow> real \<Rightarrow> real" where
  "payAt amount n rate =
     (if rate / 100 / 12 = 0 then amount / real n
      else levelPayment amount (rate / 100 / 12) n)"

section \<open>Example loans\<close>

definition date_jan :: jsdate where
  "date_jan = \<lparr>year = 2024, month = 0, day = 15\<rparr>"

definition date_jul :: jsdate where
  "date_jul = \<lparr>year = 2024, month = 6, day = 15\<rparr>"

definition date_2026 :: jsdate where
  "date_2026 = \<lparr>year = 2026, month = 0, day = 15\<rparr>"

text \<open>A payment of nothing on an interest-free loan: the balance never moves.\<close>

definition loan_unpaid :: LoanData where
  "loan_unpaid =
     \<lparr>loanAmount = 24, loanLengthYears = 1, interestRate = 0, startDate = date_jan,
      monthlyPayment = 0, escrow = 0, extraPayment = 0, oneTimeExtraPayments = 0,
      closingCosts = 0, continueExtraPayments = True\<rparr>"

text \<open>The same loan paid off at 1 a month: the last payment falls in month 24.\<close>

definition loan_paid :: LoanData where
  "loan_paid = loan_unpaid\<lparr>monthlyPayment := 1\<rparr>"

text \<open>A loan at 12 percent a year on which nothing is paid.\<close>

definition loan_negam :: LoanData where
  "loan_negam =
     \<lparr>loanAmount = 1200, loanLengthYears = 1, interestRate = 12, startDate = date_jan,
      monthlyPayment = 0, escrow = 0, extraPayment = 0, oneTimeExtraPayments = 0,
      closingCosts = 0, continueExtraPayments = True\<rparr>"

text \<open>An interest-free loan of 1200 over one year at 100 a month.\<close>

definition loan_year :: LoanData where
  "loan_year =
     \<lparr>loanAmount = 1200, loanLengthYears = 1, interestRate = 0, startDate = date_jan,
      monthlyPayment = 100, escrow = 0, extraPayment = 0, oneTimeExtraPayments = 0,
      closingCosts = 0, continueExtraPayments = True\<rparr>"

text \<open>A new loan retired on its first day by a lump sum of the whole principal.\<close>

definition loan_lump :: LoanData where
  "loan_lump = loan_year\<lparr>oneTimeExtraPayments := 1200\<rparr>"



section \<open>Unfolding the loops\<close>

lemmas walk_defs = simulate_def initial_def monthsElapsedAt_def month_step_def afterOneTime_def
  oneTimeDue_def applyExtraPayment_def interestPayment_def monthlyRate_def totalMonths_def
  principalAndInterest_def Let_def

lemma amortize_stop:
  "\<not> (balance s > 0 \<and> monthCount s < totalMonths loan * 2) \<Longrightarrow> amortize loan me s = s"
  by (subst amortize.simps) auto

lemma amortize_Break:
  "balance s > 0 \<Longrightarrow> monthCount s < totalMonths loan * 2 \<Longrightarrow>
   month_step loan me s = Break s' \<Longrightarrow> amortize loan me s = s'"
  by (subst amortize.simps) auto

lemma amortize_Continue:
  "balance s > 0 \<Longrightarrow> monthCount s < totalMonths loan * 2 \<Longrightarrow>
   month_step loan me s = Continue s' \<Longrightarrow> amortize loan me s = amortize loan me s'"
  by (subst amortize.simps) auto

lemma amortize_old_stop:
  "\<not> (balance s > 0 \<and> monthCount s < totalMonths loan * 2) \<Longrightarrow> amortize_old loan me s = s"
  by (subst amortize_old.simps) auto

lemma amortize_old_Break:
  "balance s > 0 \<Longrightarrow> monthCount s < totalMonths loan * 2 \<Longrightarrow>
   month_step_old loan me s = Break s' \<Longrightarrow> amortize_old loan me s = s'"
  by (subst amortize_old.simps) auto

lemma amortize_old_Continue:
  "balance s > 0 \<Longrightarrow> monthCount s < totalMonths loan * 2 \<Longrightarrow>
   month_step_old loan me s = Continue s' \<Longrightarrow>
   amortize_old loan me s = amortize_old loan me s'"
  by (subst amortize_old.simps) auto

lemma balances_stop:
  "\<not> (balance s > 0 \<and> monthCount s < totalMonths loan * 2) \<Longrightarrow> balances loan me s = []"
  by (subst balances.simps) auto

lemma balances_Break:
  "balance s > 0 \<Longrightarrow> monthCount s < totalMonths loan * 2 \<Longrightarrow>
   month_step loan me s = Break s' \<Longrightarrow>
   balances loan me s = [balance (afterOneTime loan me s), balance s']"
  by (subst balances.simps) auto

lemma balances_Continue:
  "balance s > 0 \<Longrightarrow> monthCount s < totalMonths loan * 2 \<Longrightarrow>
   month_step loan me s = Continue s' \<Longrightarrow>
   balances loan me s = balance (afterOneTime loan me s) # balance s' # balances loan me s'"
  by (subst balances.simps) auto

lemma month_step_Break_balance:
  "month_step loan me s = Break s' \<Longrightarrow> balance s' = 0"
  by (auto simp: month_step_def Let_def split: if_splits)

lemma month_step_Continue_count:
  "month_step loan me s = Continue s' \<Longrightarrow> monthCount s' = monthCount s + 1"
  by (auto simp: month_step_def Let_def afterOneTime_def split: if_splits)

lemma month_step_Continue_pos:
  "month_step loan me s = Continue s' \<Longrightarrow> 0 < balance s'"
  by (auto simp: month_step_def Let_def split: if_splits)

section \<open>Runs of the example loans\<close>

lemma simulate_loan_unpaid:
  "simulate date_jan loan_unpaid =
     \<lparr>balance = 24, totalInterest = 0, totalExtraPaymentV = 0, monthCount = 24,
      currentRemainingBalanceV = 24, futureInterest = 0, futureExtraPayment = 0\<rparr>"
  by (simp add: amortize.simps walk_defs loan_unpaid_def date_jan_def)

lemma simulate_loan_paid:
  "simulate date_jan loan_paid =
     \<lparr>balance = 0, totalInterest = 0, totalExtraPaymentV = 0, monthCount = 24,
      currentRemainingBalanceV = 24, futureInterest = 0, futureExtraPayment = 0\<rparr>"
  by (simp add: amortize.simps walk_defs loan_unpaid_def loan_paid_def date_jan_def)

lemma simulate_loan_year:
  "simulate date_jul loan_year =
     \<lparr>balance = 0, totalInterest = 0, totalExtraPaymentV = 0, monthCount = 12,
      currentRemainingBalanceV = 600, futureInterest = 0, futureExtraPayment = 0\<rparr>"
  by (simp add: amortize.simps walk_defs loan_year_def date_jan_def date_jul_def)

lemma amortize_old_loan_year:
  "amortize_old loan_year 6 (initial_old loan_year) =
     \<lparr>balance = 0, totalInterest = 0, totalExtraPaymentV = 0, monthCount = 12,
      currentRemainingBalanceV = 600, futureInterest = 0, futureExtraPayment = 0\<rparr>"
  by (simp add: amortize_old.simps month_step_old_def initial_old_def walk_defs loan_year_def)

lemma monthsElapsed_loan_year: "monthsElapsedAt date_jul (startDate loan_year) = 6"
  by (simp add: monthsElapsedAt_def loan_year_def date_jan_def date_jul_def)

section \<open>C1: the safety cap\<close>

lemma amortize_unpaid_cap:
  "0 < balance (amortize loan me s) \<Longrightarrow> monthCount s \<le> totalMonths loan * 2 \<Longrightarrow>
   monthCount (amortize loan me s) = totalMonths loan * 2"
proof (induction loan me s rule: amortize.induct)
  case (1 loan me s)
  show ?case
  proof (cases "balance s > 0 \<and> monthCount s < totalMonths loan * 2")
    case False
    then have "amortize loan me s = s" by (rule amortize_stop)
    with False "1.prems" show ?thesis by auto
  next
    case True
    show ?thesis
    proof (cases "month_step loan me s")
      case (Break s')
      with True "1.prems" month_step_Break_balance[OF Break] show ?thesis
        by (simp add: amortize_Break)
    next
      case (Continue s')
      have eq: "amortize loan me s = amortize loan me s'"
        using True Continue by (simp add: amortize_Continue)
      have "monthCount s' \<le> totalMonths loan * 2"
        using True month_step_Continue_count[OF Continue] by simp
      with "1.IH"[OF True Continue] "1.prems" eq show ?thesis by simp
    qed
  qed
qed

text \<open>
  Claim C1, as the code has it. When the loop of \<^verbatim>\<open>calculateLoan\<close> ends with the balance
  still positive, it has made exactly \<open>2 * totalMonths\<close> passes, and \<^verbatim>\<open>calculateLoan\<close>
  returns the ordinary result record filled from the totals reached at the cap: the months to
  payout count up to the cap, the payoff date is the start date plus \<open>2 * totalMonths\<close>
  months, and nothing in the record tells the run from one that paid the loan off.
\<close>

theorem C1_cap_result:
  assumes "0 < balance (simulate today loan)"
  shows "monthCount (simulate today loan) = 2 * totalMonths loan \<and>
         calculateLoan today loan =
           (let me = monthsElapsedAt today (startDate loan);
                s = simulate today loan;
                months = (if me > 0 then max 0 (2 * totalMonths loan - me)
                          else 2 * totalMonths loan)
            in \<lparr>totalInterestPaid = (if me > 0 then futureInterest s else totalInterest s),
                totalAmountPaid =
                  (if me > 0 then currentRemainingBalanceV s + futureInterest s
                   else loanAmount loan + totalInterest s),
                totalExtraPayment =
                  (if me > 0 then futureExtraPayment s else totalExtraPaymentV s),
                monthsToPayout = months,
                yearsToPayout = real_of_int months / 12,
                payoffDate =
                  setMonth (startDate loan) (month (startDate loan) + 2 * totalMonths loan),
                currentRemainingBalance =
                  (if me > 0 then currentRemainingBalanceV s else loanAmount loan),
                monthsElapsed = me\<rparr>)"
proof -
  let ?me = "monthsElapsedAt today (startDate loan)"
  have sim: "simulate today loan = amortize loan ?me (initial loan ?me)"
    by (simp add: simulate_def Let_def)
  have "monthCount (initial loan ?me) \<le> totalMonths loan * 2"
    by (simp add: initial_def totalMonths_def)
  with assms have cnt: "monthCount (simulate today loan) = 2 * totalMonths loan"
    unfolding sim using amortize_unpaid_cap[of loan ?me "initial loan ?me"] by simp
  have me0: "0 \<le> ?me" by (simp add: monthsElapsedAt_def)
  have noearly: "\<not> (?me = 0 \<and> oneTimeExtraPayments loan > 0
            \<and> max 0 (loanAmount loan - oneTimeExtraPayments loan) = 0)"
  proof
    assume h: "?me = 0 \<and> oneTimeExtraPayments loan > 0
            \<and> max 0 (loanAmount loan - oneTimeExtraPayments loan) = 0"
    then have b0: "balance (initial loan ?me) = 0" by (simp add: initial_def)
    then have "amortize loan ?me (initial loan ?me) = initial loan ?me"
      by (simp add: amortize_stop)
    with assms sim b0 show False by simp
  qed
  show ?thesis
    using cnt noearly me0 by (auto simp: calculateLoan_def Let_def)
qed

theorem C1_cap_result_witness:
  "0 < balance (simulate date_jan loan_unpaid) \<and>
   monthCount (simulate date_jan loan_unpaid) = 24 \<and>
   monthsToPayout (calculateLoan date_jan loan_unpaid) = 24"
proof -
  have h: "0 < balance (simulate date_jan loan_unpaid)" by (simp add: simulate_loan_unpaid)
  from C1_cap_result[OF h] h show ?thesis
    by (simp add: Let_def totalMonths_def monthsElapsedAt_def loan_unpaid_def date_jan_def)
qed

text \<open>
  The claim as stated fails: \<open>loan_unpaid\<close> reaches the cap with its balance untouched,
  \<open>loan_paid\<close> makes its last payment in the same month, and \<^verbatim>\<open>calculateLoan\<close> returns
  the same record for both.
\<close>

theorem C1_counterexample:
  "0 < balance (simulate date_jan loan_unpaid) \<and>
   balance (simulate date_jan loan_paid) = 0 \<and>
   calculateLoan date_jan loan_unpaid = calculateLoan date_jan loan_paid"
  by (simp add: calculateLoan_def Let_def simulate_loan_unpaid simulate_loan_paid)
     (simp add: loan_unpaid_def loan_paid_def date_jan_def monthsElapsedAt_def)

section \<open>C2: months elapsed\<close>

text \<open>
  Claim C2, as the code has it. The \<^verbatim>\<open>monthsElapsed\<close> that \<^verbatim>\<open>calculateLoan\<close> returns is
  the number of calendar months from the start date to today, or 0 when that is negative.
  It is never negative; the code sets no upper bound on it.
\<close>

theorem C2_monthsElapsed:
  "0 \<le> monthsElapsed (calculateLoan today loan) \<and>
   monthsElapsed (calculateLoan today loan) =
     max 0 ((year today - year (startDate loan)) * 12
            + (month today - month (startDate loan)))"
  by (simp add: calculateLoan_def Let_def monthsElapsedAt_def)

text \<open>Two years after the start of a one-year loan, 24 months have elapsed out of 12.\<close>

theorem C2_counterexample:
  "\<not> (0 \<le> monthsElapsed (calculateLoan date_2026 loan_year) \<and>
      monthsElapsed (calculateLoan date_2026 loan_year) \<le> totalMonths loan_year)"
  by (simp add: calculateLoan_def Let_def monthsElapsedAt_def loan_year_def totalMonths_def
      date_jan_def date_2026_def)

section \<open>C3: the balance along the walk\<close>

lemma afterOneTime_balance_nonneg:
  "0 \<le> balance s \<Longrightarrow> 0 \<le> balance (afterOneTime loan me s)"
  by (simp add: afterOneTime_def Let_def)

lemma afterOneTime_balance_le:
  "0 \<le> balance s \<Longrightarrow> balance (afterOneTime loan me s) \<le> balance s"
  by (auto simp: afterOneTime_def Let_def oneTimeDue_def)

lemma balances_nonneg:
  "0 \<le> balance s \<Longrightarrow> \<forall>b \<in> set (balances loan me s). 0 \<le> b"
proof (induction loan me s rule: balances.induct)
  case (1 loan me s)
  show ?case
  proof (cases "balance s > 0 \<and> monthCount s < totalMonths loan * 2")
    case False
    then show ?thesis by (simp add: balances_stop)
  next
    case True
    note a = afterOneTime_balance_nonneg[OF "1.prems", of loan me]
    show ?thesis
    proof (cases "month_step loan me s")
      case (Break s')
      with True a month_step_Break_balance[OF Break] show ?thesis
        by (simp add: balances_Break)
    next
      case (Continue s')
      have p: "0 \<le> balance s'" using month_step_Continue_pos[OF Continue] by simp
      with True a Continue "1.IH"[OF True Continue p] show ?thesis
        by (simp add: balances_Continue)
    qed
  qed
qed

lemma month_step_Continue_le:
  assumes "0 \<le> monthlyRate loan" and "0 \<le> extraPayment loan" and "0 \<le> balance s"
    and "balance s * monthlyRate loan \<le> principalAndInterest loan"
    and "month_step loan me s = Continue s'"
  shows "balance s' \<le> balance (afterOneTime loan me s)"
proof -
  let ?a = "afterOneTime loan me s"
  let ?ex = "if applyExtraPayment loan me ?a then extraPayment loan else 0"
  have "balance ?a * monthlyRate loan \<le> balance s * monthlyRate loan"
    using afterOneTime_balance_le[OF assms(3)] assms(1) by (rule mult_right_mono)
  then have p: "0 \<le> principalAndInterest loan - balance ?a * monthlyRate loan + ?ex"
    using assms(2,4) by simp
  have "balance s' =
          balance ?a - (principalAndInterest loan - balance ?a * monthlyRate loan + ?ex)"
    using assms(5) by (auto simp: month_step_def Let_def interestPayment_def split: if_splits)
  with p show ?thesis by linarith
qed

lemma balances_mono:
  "0 \<le> monthlyRate loan \<Longrightarrow> 0 \<le> extraPayment loan \<Longrightarrow> 0 \<le> balance s \<Longrightarrow>
   balance s * monthlyRate loan \<le> principalAndInterest loan \<Longrightarrow>
   (\<forall>b \<in> set (balances loan me s). b \<le> balance s) \<and> sorted_wrt (\<ge>) (balances loan me s)"
proof (induction loan me s rule: balances.induct)
  case (1 loan me s)
  show ?case
  proof (cases "balance s > 0 \<and> monthCount s < totalMonths loan * 2")
    case False
    then show ?thesis by (simp add: balances_stop)
  next
    case True
    note a = afterOneTime_balance_le[OF "1.prems"(3), of loan me]
    note a0 = afterOneTime_balance_nonneg[OF "1.prems"(3), of loan me]
    show ?thesis
    proof (cases "month_step loan me s")
      case (Break s')
      with True a a0 month_step_Break_balance[OF Break] show ?thesis
        by (simp add: balances_Break)
    next
      case (Continue s')
      have le: "balance s' \<le> balance (afterOneTime loan me s)"
        using "1.prems" Continue by (rule month_step_Continue_le)
      have p: "0 \<le> balance s'" using month_step_Continue_pos[OF Continue] by simp
      have "balance s' * monthlyRate loan \<le> balance s * monthlyRate loan"
        using le a "1.prems"(1) by (intro mult_right_mono) auto
      then have c: "balance s' * monthlyRate loan \<le> principalAndInterest loan"
        using "1.prems"(4) by simp
      note ih = "1.IH"[OF True Continue "1.prems"(1,2) p c]
      from ih le a show ?thesis
        using True Continue by (fastforce simp: balances_Continue)
    qed
  qed
qed

text \<open>
  Claim C3, as the code has it. For a principal that is not negative, the balance is never
  negative at any point of the walk, the one-time payment and the payoff month included.
  The balance does not increase from one point to the next when, besides, the rate and the
  recurring extra payment are not negative and the principal-and-interest payment covers
  one month of interest on the principal.
\<close>

theorem C3_balance_walk:
  "(0 \<le> loanAmount loan \<longrightarrow> (\<forall>b \<in> set (balance_history today loan). 0 \<le> b)) \<and>
   (0 \<le> loanAmount loan \<and> 0 \<le> interestRate loan \<and> 0 \<le> extraPayment loan \<and>
    loanAmount loan * monthlyRate loan \<le> principalAndInterest loan
      \<longrightarrow> sorted_wrt (\<ge>) (balance_history today loan))"
proof (intro conjI impI)
  let ?me = "monthsElapsedAt today (startDate loan)"
  let ?i = "initial loan ?me"
  assume "0 \<le> loanAmount loan"
  then have "0 \<le> balance ?i" by (simp add: initial_def)
  from balances_nonneg[OF this, of loan ?me] this \<open>0 \<le> loanAmount loan\<close>
  show "\<forall>b \<in> set (balance_history today loan). 0 \<le> b"
    by (simp add: balance_history_def Let_def)
next
  let ?me = "monthsElapsedAt today (startDate loan)"
  let ?i = "initial loan ?me"
  assume h: "0 \<le> loanAmount loan \<and> 0 \<le> interestRate loan \<and> 0 \<le> extraPayment loan \<and>
    loanAmount loan * monthlyRate loan \<le> principalAndInterest loan"
  then have r: "0 \<le> monthlyRate loan" by (simp add: monthlyRate_def)
  have i0: "0 \<le> balance ?i" using h by (simp add: initial_def)
  have il: "balance ?i \<le> loanAmount loan" using h by (simp add: initial_def)
  have "balance ?i * monthlyRate loan \<le> loanAmount loan * monthlyRate loan"
    using il r by (rule mult_right_mono)
  then have c: "balance ?i * monthlyRate loan \<le> principalAndInterest loan" using h by simp
  from balances_mono[OF r _ i0 c, of ?me] h il
  show "sorted_wrt (\<ge>) (balance_history today loan)"
    by (fastforce simp: balance_history_def Let_def)
qed

theorem C3_balance_walk_witness:
  "0 \<le> loanAmount loan_paid \<and> 0 \<le> interestRate loan_paid \<and> 0 \<le> extraPayment loan_paid \<and>
   loanAmount loan_paid * monthlyRate loan_paid \<le> principalAndInterest loan_paid \<and>
   sorted_wrt (\<ge>) (balance_history date_jan loan_paid) \<and>
   0 \<le> balance (initial loan_paid (monthsElapsedAt date_jan (startDate loan_paid)))"
proof -
  have h: "0 \<le> loanAmount loan_paid \<and> 0 \<le> interestRate loan_paid \<and>
      0 \<le> extraPayment loan_paid \<and>
      loanAmount loan_paid * monthlyRate loan_paid \<le> principalAndInterest loan_paid"
    by (simp add: loan_paid_def loan_unpaid_def monthlyRate_def principalAndInterest_def)
  from C3_balance_walk[of loan_paid date_jan] h show ?thesis
    by (simp add: balance_history_def Let_def)
qed

text \<open>
  The claim as stated fails: on \<open>loan_negam\<close> nothing is paid, a month of interest is added
  to the balance, and the balance after the first month is 1212, above the 1200 before it.
\<close>

theorem C3_counterexample:
  "\<not> sorted_wrt (\<ge>) (balance_history date_jan loan_negam)"
  unfolding balance_history_def Let_def
  by (subst balances.simps) (simp add: walk_defs loan_negam_def date_jan_def)

section \<open>C5: a lump sum that retires a new loan\<close>

lemma setMonth_same: "valid_date d \<Longrightarrow> setMonth d (month d) = d"
  by (simp add: setMonth_def valid_date_def Let_def)

text \<open>
  Claim C5. When no month has elapsed and the one-time payment equals the principal,
  \<^verbatim>\<open>calculateLoan\<close> returns zero months to payout, zero interest and the start date as
  the payoff date. (A principal that is not positive skips the early return and runs no
  month at all; the payoff date is then the start date moved by zero months.)
\<close>

theorem C5_lump_sum_payoff:
  assumes "monthsElapsedAt today (startDate loan) = 0"
    and "oneTimeExtraPayments loan = loanAmount loan"
    and "valid_date (startDate loan)"
  shows "monthsToPayout (calculateLoan today loan) = 0 \<and>
         totalInterestPaid (calculateLoan today loan) = 0 \<and>
         payoffDate (calculateLoan today loan) = startDate loan"
proof (cases "loanAmount loan > 0")
  case True
  with assms show ?thesis by (simp add: calculateLoan_def Let_def)
next
  case False
  then have "amortize loan 0 (initial loan 0) = initial loan 0"
    using assms by (intro amortize_stop) (simp add: initial_def)
  with False assms show ?thesis
    by (simp add: calculateLoan_def simulate_def Let_def initial_def setMonth_same)
qed

theorem C5_lump_sum_payoff_witness:
  "monthsElapsedAt date_jan (startDate loan_lump) = 0 \<and>
   oneTimeExtraPayments loan_lump = loanAmount loan_lump \<and>
   valid_date (startDate loan_lump) \<and>
   monthsToPayout (calculateLoan date_jan loan_lump) = 0 \<and>
   totalInterestPaid (calculateLoan date_jan loan_lump) = 0 \<and>
   payoffDate (calculateLoan date_jan loan_lump) = date_jan"
proof -
  have h1: "monthsElapsedAt date_jan (startDate loan_lump) = 0"
    by (simp add: monthsElapsedAt_def loan_lump_def loan_year_def)
  have h2: "oneTimeExtraPayments loan_lump = loanAmount loan_lump"
    by (simp add: loan_lump_def loan_year_def)
  have h3: "valid_date (startDate loan_lump)"
    by (simp add: valid_date_def days_in_month_def loan_lump_def loan_year_def date_jan_def)
  from C5_lump_sum_payoff[OF h1 h2 h3] h1 h2 h3 show ?thesis
    by (simp add: loan_lump_def loan_year_def)
qed

section \<open>C6: break-even months\<close>



section \<open>C9: a rate of zero\<close>

lemma month_step_zero_rate:
  assumes "monthlyRate loan = 0"
    and "month_step loan me s = Break s' \<or> month_step loan me s = Continue s'"
  shows "totalInterest s' = totalInterest s \<and> futureInterest s' = futureInterest s"
  using assms
  by (auto simp: month_step_def Let_def afterOneTime_def interestPayment_def split: if_splits)

lemma amortize_zero_rate:
  "monthlyRate loan = 0 \<Longrightarrow>
   totalInterest (amortize loan me s) = totalInterest s \<and>
   futureInterest (amortize loan me s) = futureInterest s"
proof (induction loan me s rule: amortize.induct)
  case (1 loan me s)
  show ?case
  proof (cases "balance s > 0 \<and> monthCount s < totalMonths loan * 2")
    case False
    then show ?thesis by (simp add: amortize_stop)
  next
    case True
    show ?thesis
    proof (cases "month_step loan me s")
      case (Break s')
      with True month_step_zero_rate[OF "1.prems", of me s s'] show ?thesis
        by (simp add: amortize_Break)
    next
      case (Continue s')
      with True month_step_zero_rate[OF "1.prems", of me s s']
        "1.IH"[OF True Continue "1.prems"]
      show ?thesis
        by (simp add: amortize_Continue)
    qed
  qed
qed

lemma calculateMonthlyPayment_checked_agrees:
  "calculateMonthlyPayment_checked amount years rate = Some v \<Longrightarrow>
   calculateMonthlyPayment amount years rate = v"
  by (auto simp: calculateMonthlyPayment_checked_def calculateMonthlyPayment_def
      checked_div_def levelPayment_def Let_def split: if_splits)

text \<open>
  Claim C9. \<^verbatim>\<open>calculateLoan\<close> divides by the literals 100 and 12 only, so no divisor of
  it is ever zero. At a rate of zero the interest of a month is zero whatever the balance,
  the interest totals stay at zero through the loop, and the interest it returns is zero.
  At a rate of zero and a term of at least one year \<^verbatim>\<open>calculateMonthlyPayment\<close> returns
  the principal divided by the number of months, and none of its divisors is zero.
\<close>

theorem C9_zero_rate:
  assumes "interestRate loan = 0" and "1 \<le> years"
  shows "totalInterestPaid (calculateLoan today loan) = 0 \<and>
         totalInterest (simulate today loan) = 0 \<and>
         futureInterest (simulate today loan) = 0 \<and>
         (\<forall>s. interestPayment loan s = 0) \<and>
         calculateMonthlyPayment_checked amount years 0 = Some (amount / (real years * 12)) \<and>
         calculateMonthlyPayment amount years 0 = amount / (real years * 12)"
proof -
  have r: "monthlyRate loan = 0" using assms by (simp add: monthlyRate_def)
  have a: "totalInterest (simulate today loan) = 0 \<and> futureInterest (simulate today loan) = 0"
    using amortize_zero_rate[OF r] by (simp add: simulate_def Let_def initial_def)
  have b: "totalInterestPaid (calculateLoan today loan) = 0"
    using a by (simp add: calculateLoan_def Let_def)
  have c: "\<forall>s. interestPayment loan s = 0" using r by (simp add: interestPayment_def)
  have d: "calculateMonthlyPayment_checked amount years 0 = Some (amount / (real years * 12))"
    using assms(2) by (simp add: calculateMonthlyPayment_checked_def checked_div_def)
  have e: "calculateMonthlyPayment amount years 0 = amount / (real years * 12)"
    by (simp add: calculateMonthlyPayment_def)
  from a b c d e show ?thesis by blast
qed

theorem C9_zero_rate_witness:
  "interestRate loan_year = 0 \<and> (1::nat) \<le> 1 \<and>
   totalInterestPaid (calculateLoan date_jul loan_year) = 0 \<and>
   calculateMonthlyPayment_checked 1200 1 0 = Some 100"
proof -
  have h: "interestRate loan_year = 0" by (simp add: loan_year_def)
  from C9_zero_rate[OF h, of 1 date_jul 1200] h show ?thesis by simp
qed

section \<open>C10: the older and the current \<^verbatim>\<open>calculateLoan\<close>\<close>

lemma month_step_old_eq:
  assumes "oneTimeExtraPayments loan = 0" and "continueExtraPayments loan"
  shows "month_step loan me s = month_step_old loan me s"
  using assms
  by (simp add: month_step_def month_step_old_def afterOneTime_def oneTimeDue_def
      applyExtraPayment_def interestPayment_def Let_def)

lemma amortize_old_eq:
  "oneTimeExtraPayments loan = 0 \<Longrightarrow> continueExtraPayments loan \<Longrightarrow>
   amortize loan me s = amortize_old loan me s"
proof (induction loan me s rule: amortize_old.induct)
  case (1 loan me s)
  have st: "month_step loan me s = month_step_old loan me s"
    using "1.prems" by (rule month_step_old_eq)
  show ?case
  proof (cases "balance s > 0 \<and> monthCount s < totalMonths loan * 2")
    case False
    then show ?thesis by (simp add: amortize_stop amortize_old_stop)
  next
    case True
    show ?thesis
    proof (cases "month_step_old loan me s")
      case (Break s')
      with True st show ?thesis by (simp add: amortize_Break amortize_old_Break)
    next
      case (Continue s')
      have "amortize loan me s = amortize loan me s'"
        using True st Continue by (simp add: amortize_Continue)
      moreover have "amortize_old loan me s = amortize_old loan me s'"
        using True Continue by (simp add: amortize_old_Continue)
      ultimately show ?thesis using "1.IH"[OF True Continue "1.prems"] by simp
    qed
  qed
qed

lemma month_step_old_crb:
  assumes "0 \<le> currentRemainingBalanceV s"
    and "month_step_old loan me s = Break s' \<or> month_step_old loan me s = Continue s'"
  shows "0 \<le> currentRemainingBalanceV s'"
  using assms by (auto simp: month_step_old_def Let_def split: if_splits)

lemma amortize_old_crb:
  "0 \<le> currentRemainingBalanceV s \<Longrightarrow>
   0 \<le> currentRemainingBalanceV (amortize_old loan me s)"
proof (induction loan me s rule: amortize_old.induct)
  case (1 loan me s)
  show ?case
  proof (cases "balance s > 0 \<and> monthCount s < totalMonths loan * 2")
    case False
    with "1.prems" show ?thesis by (simp add: amortize_old_stop)
  next
    case True
    show ?thesis
    proof (cases "month_step_old loan me s")
      case (Break s')
      with True month_step_old_crb[OF "1.prems", of loan me s'] show ?thesis
        by (simp add: amortize_old_Break)
    next
      case (Continue s')
      with True month_step_old_crb[OF "1.prems", of loan me s'] "1.IH"[OF True Continue]
      show ?thesis by (simp add: amortize_old_Continue)
    qed
  qed
qed

text \<open>
  Claim C10, as the code has it. For a loan with no one-time payment, with
  \<^verbatim>\<open>continueExtraPayments\<close> set and a principal that is not negative, the current
  \<^verbatim>\<open>calculateLoan\<close> returns the record of the older one in every field but two:
  \<^verbatim>\<open>monthsToPayout\<close>, which the older version counts from the start of the loan and the
  current one from today once a month has elapsed, and \<^verbatim>\<open>yearsToPayout\<close>, its twelfth.
  When no month has elapsed the two records are the same.
\<close>

theorem C10_old_and_current:
  assumes "oneTimeExtraPayments loan = 0" and "continueExtraPayments loan"
    and "0 \<le> loanAmount loan"
  shows "calculateLoan today loan =
           (let old = calculateLoan_old today loan;
                me = monthsElapsedAt today (startDate loan);
                months = (if me > 0 then max 0 (monthsToPayout old - me)
                          else monthsToPayout old)
            in old\<lparr>monthsToPayout := months, yearsToPayout := real_of_int months / 12\<rparr>)
         \<and> (monthsElapsedAt today (startDate loan) = 0
              \<longrightarrow> calculateLoan today loan = calculateLoan_old today loan)"
proof -
  let ?me = "monthsElapsedAt today (startDate loan)"
  have i: "initial loan ?me = initial_old loan"
    using assms by (simp add: initial_def initial_old_def)
  have s: "simulate today loan = amortize_old loan ?me (initial_old loan)"
    using amortize_old_eq[OF assms(1,2)] i by (simp add: simulate_def Let_def)
  have "0 \<le> currentRemainingBalanceV (initial_old loan)"
    using assms by (simp add: initial_old_def)
  then have c: "0 \<le> currentRemainingBalanceV (amortize_old loan ?me (initial_old loan))"
    by (rule amortize_old_crb)
  show ?thesis
    using assms s c by (simp add: calculateLoan_def calculateLoan_old_def Let_def)
qed

theorem C10_old_and_current_witness:
  "oneTimeExtraPayments loan_year = 0 \<and> continueExtraPayments loan_year \<and>
   0 \<le> loanAmount loan_year \<and>
   totalAmountPaid (calculateLoan date_jul loan_year) =
     totalAmountPaid (calculateLoan_old date_jul loan_year) \<and>
   monthsElapsedAt date_jan (startDate loan_year) = 0 \<and>
   calculateLoan date_jan loan_year = calculateLoan_old date_jan loan_year"
proof -
  have h1: "oneTimeExtraPayments loan_year = 0" by (simp add: loan_year_def)
  have h2: "continueExtraPayments loan_year" by (simp add: loan_year_def)
  have h3: "0 \<le> loanAmount loan_year" by (simp add: loan_year_def)
  have h4: "monthsElapsedAt date_jan (startDate loan_year) = 0"
    by (simp add: monthsElapsedAt_def loan_year_def)
  from C10_old_and_current[OF h1 h2 h3, of date_jul]
  have a: "totalAmountPaid (calculateLoan date_jul loan_year) =
     totalAmountPaid (calculateLoan_old date_jul loan_year)"
    by (simp add: Let_def)
  from C10_old_and_current[OF h1 h2 h3, of date_jan] h4
  have b: "calculateLoan date_jan loan_year = calculateLoan_old date_jan loan_year"
    by blast
  from h1 h2 h3 h4 a b show ?thesis by blast
qed

text \<open>
  The claim as stated fails: six months into \<open>loan_year\<close>, which is paid off in month 12,
  the older version reports 12 months to payout and the current one 6.
\<close>

theorem C10_counterexample:
  "oneTimeExtraPayments loan_year = 0 \<and> continueExtraPayments loan_year \<and>
   monthsToPayout (calculateLoan_old date_jul loan_year) = 12 \<and>
   monthsToPayout (calculateLoan date_jul loan_year) = 6"
  by (simp add: calculateLoan_def calculateLoan_old_def Let_def monthsElapsed_loan_year
        simulate_loan_year amortize_old_loan_year)
     (simp add: loan_year_def)

section \<open>C8: the payment over the full term\<close>

lemma annuity_step_arith:
  fixes a b r :: real
  assumes "b * (1 + r) = a"
  shows "1 - a + r * b = 1 - b"
proof -
  have "b * (1 + r) = b + r * b" by (simp add: distrib_left mult.commute)
  with assms show ?thesis by linarith
qed

lemma annuity_times_rate:
  assumes "0 \<le> r"
  shows "r * annuity n r = 1 - (1 / (1 + r)) ^ n"
proof (induction n)
  case 0
  show ?case by (simp add: annuity_def)
next
  case (Suc n)
  let ?q = "1 / (1 + r)"
  have x: "1 + r \<noteq> 0" using assms by linarith
  have qn: "?q ^ Suc n * (1 + r) = ?q ^ n" using x by simp
  have "r * annuity (Suc n) r = r * annuity n r + r * ?q ^ Suc n"
    by (simp add: annuity_def distrib_left)
  also have "\<dots> = 1 - ?q ^ n + r * ?q ^ Suc n"
    using Suc.IH by simp
  also have "\<dots> = 1 - ?q ^ Suc n"
    using qn by (rule annuity_step_arith)
  finally show ?case .
qed

lemma annuity_pos: "0 \<le> r \<Longrightarrow> 0 < n \<Longrightarrow> 0 < annuity n r"
  unfolding annuity_def by (intro sum_pos) auto

lemma annuity_zero: "annuity n 0 = real n"
  by (simp add: annuity_def)

lemma annuity_le: "0 \<le> r \<Longrightarrow> annuity n r \<le> real n"
proof -
  assume r: "0 \<le> r"
  have "annuity n r \<le> (\<Sum>j<n. 1)"
    unfolding annuity_def
  proof (rule sum_mono)
    fix j show "(1 / (1 + r)) ^ Suc j \<le> 1"
      using r by (intro power_le_one) auto
  qed
  then show ?thesis by simp
qed

lemma annuity_strict_antimono:
  assumes "0 \<le> a" and "a < b" and "0 < n"
  shows "annuity n b < annuity n a"
  unfolding annuity_def
proof (rule sum_strict_mono)
  show "finite {..<n}" by simp
  show "{..<n} \<noteq> {}" using assms(3) by auto
  fix j assume "j \<in> {..<n}"
  have "1 / (1 + b) < 1 / (1 + a)" using assms by (simp add: frac_less2)
  moreover have "0 \<le> 1 / (1 + b)" using assms by simp
  ultimately show "(1 / (1 + b)) ^ Suc j < (1 / (1 + a)) ^ Suc j"
    by (intro power_strict_mono) auto
qed

lemma levelPayment_annuity:
  assumes "0 < r" and "0 < n"
  shows "levelPayment amount r n = amount / annuity n r"
proof -
  have x: "0 < 1 + r" using assms by linarith
  have xn: "0 < (1 + r) ^ n" using x by simp
  have "r * annuity n r * (1 + r) ^ n = (1 - (1 / (1 + r)) ^ n) * (1 + r) ^ n"
    using annuity_times_rate[of r n] assms by simp
  also have "\<dots> = (1 + r) ^ n - 1"
    using x by (simp add: algebra_simps power_one_over)
  finally have e: "(1 + r) ^ n - 1 = r * (1 + r) ^ n * annuity n r" by (simp add: mult_ac)
  have a: "annuity n r \<noteq> 0" using annuity_pos[of r n] assms by simp
  have "levelPayment amount r n = amount * (r * (1 + r) ^ n) / (r * (1 + r) ^ n * annuity n r)"
    by (simp add: levelPayment_def e)
  also have "\<dots> = amount / annuity n r"
    using assms(1) xn a by simp
  finally show ?thesis .
qed

lemma payAt_annuity:
  assumes "0 \<le> rate" and "0 < n"
  shows "payAt amount n rate = amount / annuity n (rate / 1200)"
proof (cases "rate = 0")
  case True
  then show ?thesis by (simp add: payAt_def annuity_zero)
next
  case False
  with assms have "0 < rate / 100 / 12" by simp
  from levelPayment_annuity[OF this assms(2)] False show ?thesis
    by (simp add: payAt_def)
qed

lemma payAt_strict_mono:
  assumes "0 < amount" and "0 < n" and "0 \<le> a" and "a < b"
  shows "payAt amount n a < payAt amount n b"
proof -
  have "annuity n (b / 1200) < annuity n (a / 1200)"
    using assms by (intro annuity_strict_antimono) auto
  moreover have "0 < annuity n (b / 1200)" using assms by (intro annuity_pos) auto
  ultimately have "amount / annuity n (a / 1200) < amount / annuity n (b / 1200)"
    using assms(1) by (simp add: frac_less2)
  then show ?thesis using assms by (simp add: payAt_annuity)
qed

lemma calculateMonthlyPayment_payAt:
  "calculateMonthlyPayment amount years rate = payAt amount (years * 12) rate"
  by (simp add: calculateMonthlyPayment_def payAt_def Let_def)

lemma payment_covers_principal_exact:
  assumes "0 \<le> rate" and "1 \<le> years" and "0 \<le> amount"
  shows "amount \<le> calculateMonthlyPayment amount years rate * 12 * real years"
proof -
  let ?n = "years * 12"
  let ?A = "annuity ?n (rate / 1200)"
  have n: "0 < ?n" using assms by simp
  have r: "0 \<le> rate / 1200" using assms by simp
  have A0: "0 < ?A" using r n by (rule annuity_pos)
  have A1: "?A \<le> real ?n" using r by (rule annuity_le)
  have "amount * ?A \<le> amount * real ?n" using A1 assms(3) by (rule mult_left_mono)
  then have "amount \<le> amount / ?A * real ?n" using A0 by (simp add: field_simps)
  then show ?thesis
    using assms n by (simp add: calculateMonthlyPayment_payAt payAt_annuity mult_ac)
qed

subsection \<open>Rounding to a double\<close>

lemma pow2_power_int: "pow2 e = power_int 2 e"
  by (simp add: pow2_def power_int_def inverse_eq_divide power_one_over)

lemma pow2_pos: "0 < pow2 e"
  by (simp add: pow2_def)

lemma pow2_add: "pow2 (a + b) = pow2 a * pow2 b"
  by (simp add: pow2_power_int power_int_add)

lemma pow2_mono: "a \<le> b \<Longrightarrow> pow2 a \<le> pow2 b"
  by (simp add: pow2_power_int power_int_increasing)

lemma pow2_nat: "pow2 (int k) = 2 ^ k"
  by (simp add: pow2_def)

lemma pow2_neg_nat: "pow2 (- int k) = 1 / 2 ^ k"
  by (cases "k = 0") (simp_all add: pow2_def)

lemma bits_bounds: "0 < n \<Longrightarrow> 2 ^ (bits n - 1) \<le> n \<and> n < 2 ^ bits n"
proof (induction n rule: bits.induct)
  case (1 n)
  show ?case
  proof (cases "n div 2 = 0")
    case True
    with "1.prems" have "n = 1" by (auto simp: div_eq_0_iff)
    then show ?thesis by (simp add: bits.simps)
  next
    case False
    then have h: "0 < n div 2" by simp
    have n0: "n \<noteq> 0" using "1.prems" by simp
    from "1.IH"[OF n0 h] have a: "2 ^ (bits (n div 2) - 1) \<le> n div 2"
      and b: "n div 2 < 2 ^ bits (n div 2)" by simp_all
    have k: "bits (n div 2) \<noteq> 0" using h by (simp add: bits.simps[of "n div 2"])
    have e: "bits n = Suc (bits (n div 2))" using n0 by (simp add: bits.simps[of n])
    have "2 ^ bits (n div 2) = (2::nat) * 2 ^ (bits (n div 2) - 1)"
      using k by (cases "bits (n div 2)") simp_all
    then have lo: "2 ^ bits (n div 2) \<le> n" using a by linarith
    have hi: "n < 2 * 2 ^ bits (n div 2)" using b by linarith
    show ?thesis using lo hi by (simp add: e)
  qed
qed

lemma bits_pos: "0 < n \<Longrightarrow> 0 < bits n"
  by (simp add: bits.simps[of n])

lemma binade_bounds:
  assumes "x \<noteq> 0"
  shows "pow2 (binade x) \<le> \<bar>x\<bar> \<and> \<bar>x\<bar> < pow2 (binade x + 1)"
proof (cases "1 \<le> \<bar>x\<bar>")
  case True
  let ?n = "nat \<lfloor>\<bar>x\<bar>\<rfloor>"
  have n: "0 < ?n" using True by simp
  note bb = bits_bounds[OF n]
  have k: "0 < bits ?n" using n by (rule bits_pos)
  have e: "binade x = int (bits ?n - 1)" using True assms k by (simp add: binade_def)
  have e1: "binade x + 1 = int (bits ?n)" using e k by simp
  have "real (2 ^ (bits ?n - 1)) \<le> real ?n" using bb by (simp only: of_nat_le_iff)
  also have "real ?n \<le> \<bar>x\<bar>" using True by simp
  finally have lo: "pow2 (binade x) \<le> \<bar>x\<bar>" by (simp add: e pow2_nat)
  have "?n < 2 ^ bits ?n" using bb by blast
  then have "?n + 1 \<le> 2 ^ bits ?n" by linarith
  then have "real (?n + 1) \<le> real (2 ^ bits ?n)" by (simp only: of_nat_le_iff)
  moreover have "\<bar>x\<bar> < real (?n + 1)" using True by simp linarith
  ultimately have hi: "\<bar>x\<bar> < pow2 (binade x + 1)" by (simp add: e1 pow2_nat)
  from lo hi show ?thesis ..
next
  case False
  let ?y = "1 / \<bar>x\<bar>"
  let ?j = "nat (\<lceil>?y\<rceil> - 1)"
  have x0: "0 < \<bar>x\<bar>" using assms by simp
  have y1: "1 < ?y" using False x0 by simp
  then have c2: "2 \<le> \<lceil>?y\<rceil>" by linarith
  then have j: "0 < ?j" by simp
  note bb = bits_bounds[OF j]
  have k: "0 < bits ?j" using j by (rule bits_pos)
  have e: "binade x = - int (bits ?j)" using False assms by (simp add: binade_def)
  have e1: "binade x + 1 = - int (bits ?j - 1)" using e k by simp
  have "0 \<le> \<lceil>?y\<rceil> - 1" using c2 by linarith
  then have ji: "int ?j = \<lceil>?y\<rceil> - 1" by (rule nat_0_le)
  have "real ?j = real_of_int (int ?j)" by simp
  also have "\<dots> = real_of_int (\<lceil>?y\<rceil> - 1)" by (simp only: ji)
  also have "\<dots> = real_of_int \<lceil>?y\<rceil> - 1" by simp
  finally have jr: "real ?j = real_of_int \<lceil>?y\<rceil> - 1" .
  have cge: "?y \<le> real_of_int \<lceil>?y\<rceil>" by (rule le_of_int_ceiling)
  have clt: "real_of_int \<lceil>?y\<rceil> - 1 < ?y" by linarith
  have "?j < 2 ^ bits ?j" using bb by blast
  then have "?j + 1 \<le> 2 ^ bits ?j" by linarith
  then have "real (?j + 1) \<le> real (2 ^ bits ?j)" by (simp only: of_nat_le_iff)
  then have A: "real ?j + 1 \<le> 2 ^ bits ?j" by simp
  have "?y \<le> 2 ^ bits ?j" using A jr cge by linarith
  then have lo: "pow2 (binade x) \<le> \<bar>x\<bar>"
    using x0 by (simp add: e pow2_neg_nat field_simps)
  have "real (2 ^ (bits ?j - 1)) \<le> real ?j" using bb by (simp only: of_nat_le_iff)
  then have B: "2 ^ (bits ?j - 1) \<le> real ?j" by simp
  have p: "pow2 (binade x + 1) = 1 / 2 ^ (bits ?j - 1)" by (simp only: e1 pow2_neg_nat)
  have "2 ^ (bits ?j - 1) < ?y" using B jr clt by linarith
  then have "\<bar>x\<bar> < 1 / 2 ^ (bits ?j - 1)" using x0 by (simp add: field_simps)
  then have hi: "\<bar>x\<bar> < pow2 (binade x + 1)" by (simp only: p)
  from lo hi show ?thesis ..
qed

lemma round_even_close: "\<bar>real_of_int (round_even y) - y\<bar> \<le> 1 / 2"
proof -
  have "real_of_int \<lfloor>y\<rfloor> \<le> y" "y < real_of_int \<lfloor>y\<rfloor> + 1" by linarith+
  then show ?thesis
    by (auto simp: round_even_def Let_def abs_le_iff)
qed

lemma fl_close:
  assumes "pow2 (- 1022) \<le> \<bar>x\<bar>"
  shows "\<bar>fl x - x\<bar> \<le> \<bar>x\<bar> / 2 ^ 53"
proof -
  have x0: "x \<noteq> 0" using assms pow2_pos[of "- 1022"] by auto
  note bb = binade_bounds[OF x0]
  have e: "- 1022 \<le> binade x"
  proof (rule ccontr)
    assume "\<not> - 1022 \<le> binade x"
    then have "binade x + 1 \<le> - 1022" by simp
    then have "pow2 (binade x + 1) \<le> pow2 (- 1022)" by (rule pow2_mono)
    with bb assms show False by linarith
  qed
  define u where "u = pow2 (binade x - 52)"
  have u0: "0 < u" unfolding u_def by (rule pow2_pos)
  have f: "fl x = real_of_int (round_even (x / u)) * u"
    using e by (simp add: fl_def Let_def u_def max_def)
  have "fl x - x = (real_of_int (round_even (x / u)) - x / u) * u"
    using u0 by (simp add: f field_simps)
  then have "\<bar>fl x - x\<bar> = \<bar>real_of_int (round_even (x / u)) - x / u\<bar> * u"
    using u0 by (simp add: abs_mult)
  also have "\<dots> \<le> 1 / 2 * u"
    using round_even_close[of "x / u"] u0 by (intro mult_right_mono) simp_all
  also have "u = pow2 (binade x) * pow2 (- 52)"
    unfolding u_def using pow2_add[of "binade x" "- 52"] by simp
  also have "pow2 (- 52) = 1 / 2 ^ 52" by (simp add: pow2_def)
  finally have "\<bar>fl x - x\<bar> \<le> pow2 (binade x) / 2 ^ 53" by simp
  also have "\<dots> \<le> \<bar>x\<bar> / 2 ^ 53" using bb by (simp add: divide_right_mono)
  finally show ?thesis .
qed

lemma fl_zero: "fl 0 = 0"
  by (simp add: fl_def round_even_def Let_def)

lemma double_rate_zero:
  "1 \<le> years \<Longrightarrow>
   calculateMonthlyPayment_double pow amount years 0 = Some (fl (amount / real (years * 12)))"
  by (simp add: calculateMonthlyPayment_double_def fl_zero Let_def)

lemma fl_quotient_covers:
  assumes "1 \<le> years" and "0 \<le> amount"
    and "amount = 0 \<or> pow2 (- 1022) \<le> amount / real (years * 12)"
  shows "amount * (1 - 1 / 2 ^ 53) \<le> fl (amount / real (years * 12)) * 12 * real years"
proof -
  let ?n = "real (years * 12)"
  let ?x = "amount / ?n"
  have n: "0 < ?n" using assms(1) by simp
  have x0: "0 \<le> ?x" using assms(2) n by simp
  have c: "?x - ?x / 2 ^ 53 \<le> fl ?x"
  proof (cases "amount = 0")
    case True
    then show ?thesis by (simp add: fl_zero)
  next
    case False
    with assms(3) have p: "pow2 (- 1022) \<le> ?x" by blast
    have ax: "\<bar>?x\<bar> = ?x" using x0 by (rule abs_of_nonneg)
    have "pow2 (- 1022) \<le> \<bar>?x\<bar>" using p by (simp only: ax)
    from fl_close[OF this] have "\<bar>fl ?x - ?x\<bar> \<le> ?x / 2 ^ 53" by (simp only: ax)
    then show ?thesis by linarith
  qed
  have "(?x - ?x / 2 ^ 53) * ?n \<le> fl ?x * ?n"
    using c n by (intro mult_right_mono) simp_all
  moreover have "(?x - ?x / 2 ^ 53) * ?n = amount * (1 - 1 / 2 ^ 53)"
    using n by (simp add: field_simps)
  ultimately show ?thesis
    by (simp add: mult_ac)
qed

lemma fl_fifty_ninths: "fl (50 / 9) = 3127499741229511 / 562949953421312"
  by (simp add: fl_def binade_def bits.simps pow2_def round_even_def Let_def)

lemma double_payment_1000_15:
  "calculateMonthlyPayment_double pow_rounded 1000 15 0 =
     Some (3127499741229511 / 562949953421312)"
  by (simp add: calculateMonthlyPayment_double_def fl_zero Let_def fl_fifty_ninths)

lemma double_product_1000_15:
  "fl (fl (3127499741229511 / 562949953421312 * 12) * 15) =
     8796093022207999 / 8796093022208"
  by (simp add: fl_def binade_def bits.simps pow2_def round_even_def Let_def)

text \<open>
  Claim C8, as the code has it. For a rate and a principal that are not negative and a
  term of at least one year, the payment formula evaluated in exact arithmetic gives a
  payment that, times the number of months of the term, is at least the principal. The
  program evaluates it in doubles, and there the bound holds up to rounding only: at a
  rate of zero \<^verbatim>\<open>calculateMonthlyPayment\<close> returns the double nearest to the principal
  divided by the number of months, and that payment times the number of months is at
  least the principal less one part in \<open>2^53\<close> of it (for a principal below \<open>2^1023\<close>
  whose quotient is no subnormal number, and a term below \<open>2^53\<close> months).
\<close>

theorem C8_covers_up_to_rounding:
  assumes "0 \<le> rate" and "1 \<le> years" and "real (years * 12) < 2 ^ 53"
    and "0 \<le> amount" and "amount < 2 ^ 1023"
    and "amount = 0 \<or> pow2 (- 1022) \<le> amount / real (years * 12)"
  shows "amount \<le> calculateMonthlyPayment amount years rate * 12 * real years \<and>
         calculateMonthlyPayment_double pow amount years 0
           = Some (fl (calculateMonthlyPayment amount years 0)) \<and>
         amount * (1 - 1 / 2 ^ 53)
           \<le> fl (calculateMonthlyPayment amount years 0) * 12 * real years"
proof -
  have e: "calculateMonthlyPayment amount years 0 = amount / real (years * 12)"
    by (simp add: calculateMonthlyPayment_def)
  have a: "amount \<le> calculateMonthlyPayment amount years rate * 12 * real years"
    using assms(1,2,4) by (rule payment_covers_principal_exact)
  have b: "calculateMonthlyPayment_double pow amount years 0
      = Some (fl (calculateMonthlyPayment amount years 0))"
    unfolding e using assms(2) by (rule double_rate_zero)
  have c: "amount * (1 - 1 / 2 ^ 53)
      \<le> fl (calculateMonthlyPayment amount years 0) * 12 * real years"
    unfolding e using assms(2,4,6) by (rule fl_quotient_covers)
  from a b c show ?thesis by blast
qed

theorem C8_covers_up_to_rounding_witness:
  "(0::real) \<le> 6 \<and> (1::nat) \<le> 15 \<and> real (15 * 12) < 2 ^ 53 \<and>
   (0::real) \<le> 1000 \<and> (1000::real) < 2 ^ 1023 \<and>
   ((1000::real) = 0 \<or> pow2 (- 1022) \<le> 1000 / real (15 * 12)) \<and>
   1000 \<le> calculateMonthlyPayment 1000 15 6 * 12 * real (15::nat) \<and>
   calculateMonthlyPayment_double pow_rounded 1000 15 0
     = Some (fl (calculateMonthlyPayment 1000 15 0)) \<and>
   1000 * (1 - 1 / 2 ^ 53) \<le> fl (calculateMonthlyPayment 1000 15 0) * 12 * real (15::nat)"
proof -
  have h3: "real (15 * 12) < 2 ^ 53" by simp
  have h5: "(1000::real) < 2 ^ 1023" by simp
  have h6: "(1000::real) = 0 \<or> pow2 (- 1022) \<le> 1000 / real (15 * 12)"
    by (simp add: pow2_def)
  from C8_covers_up_to_rounding[of 6 15 1000 pow_rounded, OF _ _ h3 _ h5 h6] h3 h5 h6
  show ?thesis by simp
qed

text \<open>
  The claim as stated fails in the program's arithmetic: for a principal of 1000 over 15
  years at a rate of zero the payment is the double just below \<open>1000 / 180\<close>, and 12 times
  15 times it is below 1000, whether the product is exact or itself taken in doubles
  (where it is the double just below 1000, printed as 999.9999999999999).
\<close>

theorem C8_counterexample:
  "calculateMonthlyPayment_double pow_rounded 1000 15 0
     = Some (3127499741229511 / 562949953421312) \<and>
   3127499741229511 / 562949953421312 * 12 * 15 < (1000::real) \<and>
   fl (fl (3127499741229511 / 562949953421312 * 12) * 15) < 1000"
  unfolding double_payment_1000_15 double_product_1000_15 by simp

section \<open>C7: the payment-target solver\<close>

lemma payAt_mono:
  assumes "0 < amount" and "0 < n" and "0 \<le> a" and "a \<le> b"
  shows "payAt amount n a \<le> payAt amount n b"
proof (cases "a = b")
  case True
  then show ?thesis by simp
next
  case False
  with assms have "a < b" by simp
  from payAt_strict_mono[OF assms(1-3) this] show ?thesis by simp
qed

lemma search_exit:
  "\<not> (iterations < 100 \<and> high - low > 1 / 10000) \<Longrightarrow>
   suggestedRate_search amount n target low high mid iterations = mid"
  by (subst suggestedRate_search.simps) auto

lemma search_hit:
  "iterations < 100 \<Longrightarrow> high - low > 1 / 10000 \<Longrightarrow>
   \<bar>payAt amount n mid - target\<bar> < 1 / 100 \<Longrightarrow>
   suggestedRate_search amount n target low high mid iterations = mid"
  by (subst suggestedRate_search.simps) (simp add: payAt_def)

lemma search_up:
  "iterations < 100 \<Longrightarrow> high - low > 1 / 10000 \<Longrightarrow>
   \<not> \<bar>payAt amount n mid - target\<bar> < 1 / 100 \<Longrightarrow> payAt amount n mid < target \<Longrightarrow>
   suggestedRate_search amount n target low high mid iterations =
   suggestedRate_search amount n target mid high ((mid + high) / 2) (iterations + 1)"
  by (subst suggestedRate_search.simps) (simp add: payAt_def)

lemma search_down:
  "iterations < 100 \<Longrightarrow> high - low > 1 / 10000 \<Longrightarrow>
   \<not> \<bar>payAt amount n mid - target\<bar> < 1 / 100 \<Longrightarrow> \<not> payAt amount n mid < target \<Longrightarrow>
   suggestedRate_search amount n target low high mid iterations =
   suggestedRate_search amount n target low mid ((low + mid) / 2) (iterations + 1)"
  by (subst suggestedRate_search.simps) (simp add: payAt_def)

lemma narrow_bracket:
  assumes "\<not> (iterations < 100 \<and> high - low > 1 / 10000)"
    and "high - low = 20 / 2 ^ iterations"
  shows "high - low \<le> (1 / 10000 :: real)"
proof (cases "iterations < 100")
  case True
  with assms(1) show ?thesis by simp
next
  case False
  then have "(2::real) ^ 18 \<le> 2 ^ iterations" by (intro power_increasing) auto
  then have "20 / (2::real) ^ iterations \<le> 20 / 2 ^ 18"
    by (intro divide_left_mono) auto
  also have "\<dots> \<le> 1 / 10000" by simp
  finally show ?thesis using assms(2) by simp
qed

lemma mid_close:
  fixes low high r mid :: real
  assumes "low \<le> r" and "r \<le> high" and "mid = (low + high) / 2"
    and "high - low \<le> 1 / 10000"
  shows "\<bar>mid - r\<bar> \<le> 1 / 20000"
proof -
  have m: "2 * mid = low + high" using assms(3) by simp
  have "mid - r \<le> 1 / 20000" using assms(1,2,4) m by linarith
  moreover have "- (mid - r) \<le> 1 / 20000" using assms(1,2,4) m by linarith
  ultimately show ?thesis by (rule abs_leI)
qed

lemma search_sound:
  assumes "0 < amount" and "0 < n" and "target = payAt amount n r"
  shows "k = 100 - iterations \<Longrightarrow> 0 \<le> low \<Longrightarrow> low \<le> r \<Longrightarrow> r \<le> high \<Longrightarrow>
     mid = (low + high) / 2 \<Longrightarrow> high - low = 20 / 2 ^ iterations \<Longrightarrow>
     \<bar>payAt amount n (suggestedRate_search amount n target low high mid iterations) - target\<bar>
        < 1 / 100
     \<or> \<bar>suggestedRate_search amount n target low high mid iterations - r\<bar> \<le> 1 / 20000"
proof (induction k arbitrary: low high mid iterations)
  case 0
  then have c: "\<not> (iterations < 100 \<and> high - low > 1 / 10000)" by simp
  have "\<bar>mid - r\<bar> \<le> 1 / 20000"
    using "0.prems"(3,4,5) narrow_bracket[OF c "0.prems"(6)] by (rule mid_close)
  then show ?case by (simp add: search_exit[OF c])
next
  case (Suc k)
  show ?case
  proof (cases "iterations < 100 \<and> high - low > 1 / 10000")
    case False
    have "\<bar>mid - r\<bar> \<le> 1 / 20000"
      using Suc.prems(3,4,5) narrow_bracket[OF False Suc.prems(6)] by (rule mid_close)
    then show ?thesis by (simp add: search_exit[OF False])
  next
    case True
    then have it: "iterations < 100" and w: "high - low > 1 / 10000" by simp_all
    have k: "k = 100 - (iterations + 1)" using Suc.prems(1) by simp
    have mid0: "0 \<le> mid" using Suc.prems by simp
    have r0: "0 \<le> r" using Suc.prems by simp
    have half: "20 / (2::real) ^ (iterations + 1) = (high - low) / 2"
      using Suc.prems(6) by simp
    have hm: "high - mid = (high - low) / 2" using Suc.prems(5) by (simp add: field_simps)
    have ml: "mid - low = (high - low) / 2" using Suc.prems(5) by (simp add: field_simps)
    show ?thesis
    proof (cases "\<bar>payAt amount n mid - target\<bar> < 1 / 100")
      case True
      then show ?thesis by (simp add: search_hit[OF it w True])
    next
      case miss: False
      show ?thesis
      proof (cases "payAt amount n mid < target")
        case True
        have "mid < r"
        proof (rule ccontr)
          assume "\<not> mid < r"
          then have "r \<le> mid" by simp
          from payAt_mono[OF assms(1,2) r0 this] True assms(3) show False by simp
        qed
        then have a: "mid \<le> r" by simp
        have b: "high - mid = 20 / 2 ^ (iterations + 1)"
          by (simp only: half hm)
        from Suc.IH[OF k mid0 a Suc.prems(4) refl b]
        show ?thesis by (simp add: search_up[OF it w miss True])
      next
        case False
        with miss have "target < payAt amount n mid" by simp
        have "r < mid"
        proof (rule ccontr)
          assume "\<not> r < mid"
          then have "mid \<le> r" by simp
          from payAt_mono[OF assms(1,2) mid0 this] \<open>target < payAt amount n mid\<close> assms(3)
          show False by simp
        qed
        then have a: "r \<le> mid" by simp
        have b: "mid - low = 20 / 2 ^ (iterations + 1)"
          by (simp only: half ml)
        from Suc.IH[OF k Suc.prems(2,3) a refl b]
        show ?thesis by (simp add: search_down[OF it w miss False])
      qed
    qed
  qed
qed

text \<open>
  Claim C7, as the code has it. For a positive principal, a term of at least one year and a
  rate \<open>r\<close> from 0 to 20 percent, the solver fed with the payment at \<open>r\<close> returns a rate
  whose payment is within 0.01 of that payment, or a rate within 0.00005 of \<open>r\<close> (half the
  width 0.0001 at which the bisection stops). It stops on the payment, not on the rate. For
  \<open>r = 0\<close> it returns 0.
\<close>

theorem C7_solver_round_trip:
  assumes "0 < amount" and "1 \<le> years" and "0 \<le> r" and "r \<le> 20"
  shows "(\<bar>calculateMonthlyPayment amount years
             (calculateSuggestedRate amount years (calculateMonthlyPayment amount years r))
           - calculateMonthlyPayment amount years r\<bar> < 1 / 100
          \<or> \<bar>calculateSuggestedRate amount years (calculateMonthlyPayment amount years r) - r\<bar>
               \<le> 1 / 20000)
         \<and> (r = 0 \<longrightarrow>
              calculateSuggestedRate amount years (calculateMonthlyPayment amount years r) = 0)"
proof -
  let ?n = "years * 12"
  let ?t = "payAt amount ?n r"
  have n: "0 < ?n" using assms by simp
  have p0: "payAt amount ?n 0 = amount / real ?n" by (simp add: payAt_def)
  show ?thesis
  proof (cases "r = 0")
    case True
    then show ?thesis
      by (simp add: calculateSuggestedRate_def calculateMonthlyPayment_payAt Let_def p0)
  next
    case False
    with assms have "0 < r" by simp
    from payAt_strict_mono[OF assms(1) n _ this] p0
    have "\<not> ?t \<le> amount / real ?n" by simp
    then have e: "calculateSuggestedRate amount years ?t =
        suggestedRate_search amount ?n ?t 0 20 ((0 + 20) / 2) 0"
      by (simp add: calculateSuggestedRate_def Let_def)
    from search_sound[OF assms(1) n refl refl, of 0 r 20 "(0 + 20) / 2"] assms
    show ?thesis
      using False unfolding calculateMonthlyPayment_payAt e by simp
  qed
qed

theorem C7_solver_round_trip_witness:
  "(0::real) < 1200 \<and> (1::nat) \<le> 1 \<and> (0::real) \<le> 6 \<and> (6::real) \<le> 20 \<and>
   (\<bar>calculateMonthlyPayment 1200 1
        (calculateSuggestedRate 1200 1 (calculateMonthlyPayment 1200 1 6))
      - calculateMonthlyPayment 1200 1 6\<bar> < 1 / 100
    \<or> \<bar>calculateSuggestedRate 1200 1 (calculateMonthlyPayment 1200 1 6) - 6\<bar> \<le> 1 / 20000) \<and>
   calculateSuggestedRate 1200 1 (calculateMonthlyPayment 1200 1 0) = 0"
  using C7_solver_round_trip[of 1200 1 6] C7_solver_round_trip[of 1200 1 0] by simp

lemma levelPayment_one_percent:
  "1 / 12 < levelPayment 1 (1 / 1200) 12 \<and> levelPayment 1 (1 / 1200) 12 < 9 / 100"
  by (simp add: levelPayment_def power_divide)

lemma levelPayment_ten_percent:
  "1 / 12 < levelPayment 1 (1 / 120) 12 \<and> levelPayment 1 (1 / 120) 12 < 9 / 100"
  by (simp add: levelPayment_def power_divide)

text \<open>
  The claim as stated fails for a small principal: on a principal of 1 over one year every
  payment between the rates 0 and 20 lies within 0.01 of every other, so the solver stops at
  its first midpoint and returns 10 percent for the payment at 1 percent.
\<close>

theorem C7_counterexample:
  "calculateSuggestedRate 1 1 (calculateMonthlyPayment 1 1 1) = 10 \<and>
   \<not> \<bar>calculateSuggestedRate 1 1 (calculateMonthlyPayment 1 1 1) - 1\<bar> \<le> 1 / 100"
proof -
  let ?t = "levelPayment 1 (1 / 1200) 12"
  have t: "calculateMonthlyPayment 1 1 1 = ?t"
    by (simp add: calculateMonthlyPayment_def Let_def)
  have m: "payAt 1 12 10 = levelPayment 1 (1 / 120) 12" by (simp add: payAt_def)
  have hit: "\<bar>payAt 1 12 10 - ?t\<bar> < 1 / 100"
    unfolding m using levelPayment_one_percent levelPayment_ten_percent
    by (intro abs_leI[THEN order_le_less_trans, of _ "9 / 100 - 1 / 12"]) simp_all
  have "calculateSuggestedRate 1 1 ?t = suggestedRate_search 1 12 ?t 0 20 10 0"
    using levelPayment_one_percent by (simp add: calculateSuggestedRate_def Let_def)
  also have "\<dots> = 10" using hit by (intro search_hit) simp_all
  finally have e: "calculateSuggestedRate 1 1 ?t = 10" .
  show ?thesis unfolding t e by simp
qed

section \<open>C4: a larger extra payment\<close>

lemma month_step_grows:
  assumes "0 \<le> monthlyRate loan" and "0 \<le> balance s"
  shows "monthCount (outcome_state (month_step loan me s)) = monthCount s + 1 \<and>
         totalInterest s \<le> totalInterest (outcome_state (month_step loan me s)) \<and>
         futureInterest s \<le> futureInterest (outcome_state (month_step loan me s)) \<and>
         0 \<le> balance (outcome_state (month_step loan me s))"
proof -
  let ?a = "afterOneTime loan me s"
  have a0: "0 \<le> balance ?a" using assms(2) by (rule afterOneTime_balance_nonneg)
  have i: "0 \<le> balance ?a * monthlyRate loan" using a0 assms(1) by simp
  have f: "monthCount ?a = monthCount s + 1" "totalInterest ?a = totalInterest s"
    "futureInterest ?a = futureInterest s"
    by (simp_all add: afterOneTime_def Let_def)
  show ?thesis using a0 i f
    by (auto simp: month_step_def Let_def interestPayment_def)
qed

lemma amortize_grows:
  "0 \<le> monthlyRate loan \<Longrightarrow> 0 \<le> balance s \<Longrightarrow>
   monthCount s \<le> monthCount (amortize loan me s) \<and>
   totalInterest s \<le> totalInterest (amortize loan me s) \<and>
   futureInterest s \<le> futureInterest (amortize loan me s)"
proof (induction loan me s rule: amortize.induct)
  case (1 loan me s)
  show ?case
  proof (cases "balance s > 0 \<and> monthCount s < totalMonths loan * 2")
    case False
    then show ?thesis by (simp add: amortize_stop)
  next
    case True
    note g = month_step_grows[OF "1.prems", of me]
    show ?thesis
    proof (cases "month_step loan me s")
      case (Break s')
      with True g show ?thesis by (simp add: amortize_Break)
    next
      case (Continue s')
      with g have p: "0 \<le> balance s'" by simp
      from "1.IH"[OF True Continue "1.prems"(1) p] g Continue True
      show ?thesis by (simp add: amortize_Continue)
    qed
  qed
qed

lemma month_step_behind:
  assumes r: "0 \<le> monthlyRate l1" and e: "extraPayment l1 \<le> e2"
    and b: "behind s2 s1"
  shows "totalInterest (outcome_state (month_step (l1\<lparr>extraPayment := e2\<rparr>) me s2))
           \<le> totalInterest (outcome_state (month_step l1 me s1)) \<and>
         futureInterest (outcome_state (month_step (l1\<lparr>extraPayment := e2\<rparr>) me s2))
           \<le> futureInterest (outcome_state (month_step l1 me s1)) \<and>
         (continues (month_step (l1\<lparr>extraPayment := e2\<rparr>) me s2) \<longrightarrow>
            continues (month_step l1 me s1) \<and>
            balance (outcome_state (month_step (l1\<lparr>extraPayment := e2\<rparr>) me s2))
              \<le> balance (outcome_state (month_step l1 me s1)))"
proof -
  let ?l2 = "l1\<lparr>extraPayment := e2\<rparr>"
  let ?a1 = "afterOneTime l1 me s1"
  let ?a2 = "afterOneTime ?l2 me s2"
  have same: "monthlyRate ?l2 = monthlyRate l1" "principalAndInterest ?l2 = principalAndInterest l1"
    "oneTimeDue ?l2 me s2 = oneTimeDue l1 me s1"
    using b by (simp_all add: monthlyRate_def principalAndInterest_def oneTimeDue_def behind_def)
  have cnt: "monthCount ?a2 = monthCount ?a1"
    using b by (simp add: afterOneTime_def Let_def behind_def)
  have ap: "applyExtraPayment ?l2 me ?a2 = applyExtraPayment l1 me ?a1"
    using cnt by (simp add: applyExtraPayment_def)
  have le: "balance ?a2 \<le> balance ?a1" and a20: "0 \<le> balance ?a2"
    using b by (auto simp: afterOneTime_def Let_def behind_def oneTimeDue_def)
  have ti: "totalInterest ?a2 \<le> totalInterest ?a1" "futureInterest ?a2 \<le> futureInterest ?a1"
    using b by (simp_all add: afterOneTime_def Let_def behind_def)
  have i: "balance ?a2 * monthlyRate l1 \<le> balance ?a1 * monthlyRate l1"
    using le r by (rule mult_right_mono)
  have i0: "0 \<le> balance ?a2 * monthlyRate l1" using a20 r by simp
  show ?thesis
    using same cnt ap le a20 ti i i0 e
    by (auto simp: month_step_def Let_def interestPayment_def)
qed

lemma outcome_cases:
  "month_step loan me s = Break (outcome_state (month_step loan me s)) \<and>
     \<not> continues (month_step loan me s)
   \<or> month_step loan me s = Continue (outcome_state (month_step loan me s)) \<and>
     continues (month_step loan me s)"
  by (cases "month_step loan me s") simp_all

lemma amortize_behind:
  "0 \<le> monthlyRate l1 \<Longrightarrow> extraPayment l1 \<le> e2 \<Longrightarrow> behind s2 s1 \<Longrightarrow>
   monthCount (amortize (l1\<lparr>extraPayment := e2\<rparr>) me s2) \<le> monthCount (amortize l1 me s1) \<and>
   totalInterest (amortize (l1\<lparr>extraPayment := e2\<rparr>) me s2)
     \<le> totalInterest (amortize l1 me s1) \<and>
   futureInterest (amortize (l1\<lparr>extraPayment := e2\<rparr>) me s2)
     \<le> futureInterest (amortize l1 me s1)"
proof (induction l1 me s1 arbitrary: s2 rule: amortize.induct)
  case (1 l1 me s1)
  let ?l2 = "l1\<lparr>extraPayment := e2\<rparr>"
  let ?t1 = "outcome_state (month_step l1 me s1)"
  let ?t2 = "outcome_state (month_step ?l2 me s2)"
  note r = "1.prems"(1) and e = "1.prems"(2) and b = "1.prems"(3)
  have r2: "0 \<le> monthlyRate ?l2" using r by (simp add: monthlyRate_def)
  have tm: "totalMonths ?l2 = totalMonths l1" by (simp add: totalMonths_def)
  have b1: "0 \<le> balance s1" and b2: "0 \<le> balance s2" using b by (auto simp: behind_def)
  note up = amortize_grows[OF r b1, of me]
  show ?case
  proof (cases "balance s2 > 0 \<and> monthCount s2 < totalMonths ?l2 * 2")
    case False
    then have "amortize ?l2 me s2 = s2" by (rule amortize_stop)
    with up b show ?thesis by (auto simp: behind_def)
  next
    case True
    then have c2: "balance s2 > 0" "monthCount s2 < totalMonths ?l2 * 2" by simp_all
    have c1: "balance s1 > 0" "monthCount s1 < totalMonths l1 * 2"
      using True b tm by (auto simp: behind_def)
    note g1 = month_step_grows[OF r b1, of me]
    note g2 = month_step_grows[OF r2 b2, of me]
    note sb = month_step_behind[OF r e b, of me]
    show ?thesis
    proof (cases "continues (month_step ?l2 me s2)")
      case True
      with sb have k1: "continues (month_step l1 me s1)" and le: "balance ?t2 \<le> balance ?t1"
        by simp_all
      have s1: "month_step l1 me s1 = Continue ?t1"
        using k1 outcome_cases[of l1 me s1] by auto
      have s2: "month_step ?l2 me s2 = Continue ?t2"
        using True outcome_cases[of ?l2 me s2] by auto
      have bh: "behind ?t2 ?t1"
        using g1 g2 sb le b by (simp add: behind_def)
      have "amortize ?l2 me s2 = amortize ?l2 me ?t2"
        using c2 s2 by (rule amortize_Continue)
      moreover have "amortize l1 me s1 = amortize l1 me ?t1"
        using c1 s1 by (rule amortize_Continue)
      ultimately show ?thesis
        using "1.IH"[OF _ s1 r e bh] c1 by simp
    next
      case False
      then have s2: "month_step ?l2 me s2 = Break ?t2"
        using outcome_cases[of ?l2 me s2] by auto
      have f2: "amortize ?l2 me s2 = ?t2" using c2 s2 by (rule amortize_Break)
      show ?thesis
      proof (cases "continues (month_step l1 me s1)")
        case True
        then have s1: "month_step l1 me s1 = Continue ?t1"
          using outcome_cases[of l1 me s1] by auto
        have f1: "amortize l1 me s1 = amortize l1 me ?t1"
          using c1 s1 by (rule amortize_Continue)
        have "0 \<le> balance ?t1" using g1 by simp
        note up1 = amortize_grows[OF r this, of me]
        show ?thesis unfolding f1 f2 using up1 g1 g2 sb b by (auto simp: behind_def)
      next
        case False
        then have s1: "month_step l1 me s1 = Break ?t1"
          using outcome_cases[of l1 me s1] by auto
        have f1: "amortize l1 me s1 = ?t1" using c1 s1 by (rule amortize_Break)
        show ?thesis unfolding f1 f2 using g1 g2 sb b by (auto simp: behind_def)
      qed
    qed
  qed
qed

text \<open>
  Claim C4. For a rate that is not negative, replacing \<^verbatim>\<open>extraPayment\<close> by a larger value
  and leaving every other field as it is increases neither the months to payout nor the
  total interest that \<^verbatim>\<open>calculateLoan\<close> returns.
\<close>

theorem C4_extraPayment_monotone:
  assumes "0 \<le> interestRate loan" and "extraPayment loan \<le> e"
  shows "monthsToPayout (calculateLoan today (loan\<lparr>extraPayment := e\<rparr>))
           \<le> monthsToPayout (calculateLoan today loan) \<and>
         totalInterestPaid (calculateLoan today (loan\<lparr>extraPayment := e\<rparr>))
           \<le> totalInterestPaid (calculateLoan today loan)"
proof -
  let ?l2 = "loan\<lparr>extraPayment := e\<rparr>"
  let ?me = "monthsElapsedAt today (startDate loan)"
  let ?i = "initial loan ?me"
  have r: "0 \<le> monthlyRate loan" using assms(1) by (simp add: monthlyRate_def)
  have i2: "initial ?l2 ?me = ?i" by (simp add: initial_def)
  have sim2: "simulate today ?l2 = amortize ?l2 ?me ?i"
    by (simp add: simulate_def Let_def i2)
  have sim1: "simulate today loan = amortize loan ?me ?i"
    by (simp add: simulate_def Let_def)
  have me0: "0 \<le> ?me" by (simp add: monthsElapsedAt_def)
  have key: "monthCount (simulate today ?l2) \<le> monthCount (simulate today loan) \<and>
      totalInterest (simulate today ?l2) \<le> totalInterest (simulate today loan) \<and>
      futureInterest (simulate today ?l2) \<le> futureInterest (simulate today loan)"
  proof (cases "0 \<le> balance ?i")
    case True
    then have "behind ?i ?i" by (simp add: behind_def)
    from amortize_behind[OF r assms(2) this, of ?me] show ?thesis
      unfolding sim1 sim2 .
  next
    case False
    then have "amortize ?l2 ?me ?i = ?i" "amortize loan ?me ?i = ?i"
      by (simp_all add: amortize_stop)
    then show ?thesis unfolding sim1 sim2 by simp
  qed
  show ?thesis
    using key me0 by (auto simp: calculateLoan_def Let_def)
qed

theorem C4_extraPayment_monotone_witness:
  "0 \<le> interestRate loan_negam \<and> extraPayment loan_negam \<le> 50 \<and>
   monthsToPayout (calculateLoan date_jul (loan_negam\<lparr>extraPayment := 50\<rparr>))
     \<le> monthsToPayout (calculateLoan date_jul loan_negam) \<and>
   totalInterestPaid (calculateLoan date_jul (loan_negam\<lparr>extraPayment := 50\<rparr>))
     \<le> totalInterestPaid (calculateLoan date_jul loan_negam)"
proof -
  have h1: "0 \<le> interestRate loan_negam" by (simp add: loan_negam_def)
  have h2: "extraPayment loan_negam \<le> 50" by (simp add: loan_negam_def)
  from C4_extraPayment_monotone[OF h1 h2, of date_jul] h1 h2 show ?thesis by simp
qed

end
